theory Spec2Isabelle
  imports Complex_Main "HOL-Library.Char_ord" "HOL-Library.List_Lexorder"
begin

section \<open>Metadata production for the root-to-numpy conversion\<close>

text \<open>
  A shallow embedding of \<^verbatim>\<open>src/preprocessing/metadata.py\<close> (class \<^verbatim>\<open>Metadata\<close>).
  Python exceptions are values of the type \<open>error\<close>; a method that mutates \<^verbatim>\<open>self\<close>
  returns the object as it is when the method returns or raises. The collaborators outside
  the file (\<^verbatim>\<open>os.walk\<close>, \<^verbatim>\<open>helper.get_num_events\<close>, \<^verbatim>\<open>root_numpy.root2array\<close>,
  \<^verbatim>\<open>re.match\<close>, \<^verbatim>\<open>np.random.shuffle\<close>) are parameters, collected in the record \<open>env\<close>.
  Floating-point numbers are modelled by the reals: rounding is not modelled.
\<close>

subsection \<open>Exceptions and Python helpers\<close>

datatype error =
    RuntimeError | ValueError | ZeroDivisionError | IndexError
  | TypeError | AttributeError | KeyError | IOError

text \<open>\<^verbatim>\<open>sub in s\<close> on strings, \<^verbatim>\<open>s.startswith(p)\<close> and \<^verbatim>\<open>s.endswith(p)\<close>.\<close>

definition startswith :: "string \<Rightarrow> string \<Rightarrow> bool" where
  "startswith s p = (take (length p) s = p)"

definition endswith :: "string \<Rightarrow> string \<Rightarrow> bool" where
  "endswith s p = (length p \<le> length s \<and> drop (length s - length p) s = p)"

fun str_in :: "string \<Rightarrow> string \<Rightarrow> bool" where
  "str_in sub [] = (sub = [])"
| "str_in sub (c # cs) = (startswith (c # cs) sub \<or> str_in sub cs)"

text \<open>\<^verbatim>\<open>os.path.join(a, b)\<close> of \<^verbatim>\<open>posixpath\<close> for two components.\<close>

definition path_join :: "string \<Rightarrow> string \<Rightarrow> string" where
  "path_join a b =
     (if startswith b ''/'' then b
      else if a = [] \<or> endswith a ''/'' then a @ b
      else a @ ''/'' @ b)"

text \<open>\<^verbatim>\<open>int(x)\<close> on a float truncates towards zero.\<close>

definition py_int :: "real \<Rightarrow> int" where
  "py_int x = (if 0 \<le> x then \<lfloor>x\<rfloor> else \<lceil>x\<rceil>)"

text \<open>\<^verbatim>\<open>xs[:k]\<close> and \<^verbatim>\<open>xs[-2:]\<close>: a negative bound counts from the end.\<close>

definition py_take :: "int \<Rightarrow> 'a list \<Rightarrow> 'a list" where
  "py_take k xs = (if 0 \<le> k then take (nat k) xs else take (length xs - nat (- k)) xs)"

definition last2 :: "'a list \<Rightarrow> 'a list" where
  "last2 xs = drop (length xs - 2) xs"

text \<open>\<^verbatim>\<open>min(xs)\<close> raises \<^verbatim>\<open>ValueError\<close> on an empty sequence.\<close>

definition py_min :: "real list \<Rightarrow> error + real" where
  "py_min xs = (if xs = [] then Inl ValueError else Inr (min_list xs))"

text \<open>
  A \<^verbatim>\<open>dict\<close> is an association list with one entry per key: \<^verbatim>\<open>d[k] = v\<close> replaces the
  entry of \<open>k\<close> or adds one; \<^verbatim>\<open>d[k]\<close> raises \<^verbatim>\<open>KeyError\<close> when there is none.
\<close>

fun dict_set :: "'k \<Rightarrow> 'v \<Rightarrow> ('k \<times> 'v) list \<Rightarrow> ('k \<times> 'v) list" where
  "dict_set k v [] = [(k, v)]"
| "dict_set k v ((k', v') # kvs) =
     (if k = k' then (k, v) # kvs else (k', v') # dict_set k v kvs)"

definition dict_get :: "('k \<times> 'v) list \<Rightarrow> 'k \<Rightarrow> error + 'v" where
  "dict_get d k = (case map_of d k of None \<Rightarrow> Inl KeyError | Some v \<Rightarrow> Inr v)"

text \<open>A loop whose body may raise stops at the first exception.\<close>

fun fold_err :: "('a \<Rightarrow> 's \<Rightarrow> error + 's) \<Rightarrow> 'a list \<Rightarrow> 's \<Rightarrow> error + 's" where
  "fold_err f [] s = Inr s"
| "fold_err f (x # xs) s = (case f x s of Inl err \<Rightarrow> Inl err | Inr s' \<Rightarrow> fold_err f xs s')"

subsection \<open>The descriptor object and its collaborators\<close>

text \<open>
  One structured-array row maps a branch name to its value; a structured array is the list
  of its rows. A single branch read on its own is a column: a flat numeric array, or an
  object-typed array of per-event vectors whose entries may be non-finite.
\<close>

type_synonym recarray = "(string \<Rightarrow> real) list"

datatype npfloat = Fin real | PosInf | NegInf | NaN

datatype dtype = Float32 | Float64

datatype column = Flat "real list" | Ragged dtype "npfloat list list"

record label_info =
  bin_edges :: "real list"
  hist :: "real list"
  raw_hist :: "real list"
  class_wgt :: "real option"

record var_info =
  size :: "int option"
  median :: real
  upper :: real
  minimum :: real
  maximum :: real
  mean :: real
  std :: real

text \<open>
  The attributes of a \<^verbatim>\<open>Metadata\<close> object. An attribute that \<^verbatim>\<open>__init__\<close> sets to
  \<^verbatim>\<open>None\<close>, or does not create at all, is \<open>None\<close> until a method assigns it. The
  attributes \<open>inputdir\<close>, \<open>reweight_events\<close>, \<open>reweight_bins\<close>, \<open>metadata_events\<close>,
  \<open>total_events\<close> and \<open>all_branches\<close> are the private ones, whose Python names start
  with an underscore.
\<close>

record metadata =
  inputdir :: string
  treename :: string
  reweight_var :: string
  reweight_events :: int
  reweight_bins :: "real list"
  metadata_events :: int
  selection :: "string option"
  var_groups :: "(string \<times> (string list \<times> int option)) list"
  var_blacklist :: "string list"
  var_no_transform_branches :: "string list option"
  label_branches :: "string list"
  var_img :: string
  var_pos :: "string list"
  n_pixels :: int
  img_ranges :: "real list list"
  inputfiles :: "string list option"
  num_events :: "int list option"
  total_events :: "int option"
  all_branches :: "string list option"
  var_branches :: "string list option"
  var_sizes :: "(string \<times> int option) list option"
  reweight_info :: "(string \<times> label_info) list option"
  branches_info :: "(string \<times> var_info) list option"

text \<open>
  The collaborators. \<open>os_walk\<close> gives the triples of \<^verbatim>\<open>os.walk\<close> in traversal order;
  \<open>get_num_events\<close> gives \<open>0\<close> for every falsy result; \<open>root2array_names\<close> gives the
  field names of the structured array read from a file; \<open>root2array_rec\<close> reads the
  listed branches of the listed files (up to an optional stop entry) as a structured
  array, \<open>root2array_col\<close> one branch of one file as a column; \<open>shuffle\<close> is the
  permutation \<^verbatim>\<open>np.random.shuffle\<close> applies; \<open>writable\<close> tells whether
  \<^verbatim>\<open>open(path, 'w')\<close> succeeds.
\<close>

record env =
  os_walk :: "string \<Rightarrow> (string \<times> string list \<times> string list) list"
  get_num_events :: "string \<Rightarrow> string \<Rightarrow> int"
  re_match :: "string \<Rightarrow> string \<Rightarrow> bool"
  root2array_names :: "string \<Rightarrow> string \<Rightarrow> string list"
  root2array_rec ::
    "string list \<Rightarrow> string \<Rightarrow> string option \<Rightarrow> string list \<Rightarrow> int option \<Rightarrow> recarray"
  root2array_col :: "string \<Rightarrow> string \<Rightarrow> string option \<Rightarrow> string \<Rightarrow> int \<Rightarrow> column"
  shuffle :: "nat list \<Rightarrow> nat list"
  writable :: "string \<Rightarrow> bool"

subsection \<open>File enumerator: \<^verbatim>\<open>updateFilelist\<close>\<close>

text \<open>
  The two lists are appended to in the same branch of the inner loop. A falsy event count
  skips the file.
\<close>

definition visit_file ::
  "env \<Rightarrow> string \<Rightarrow> string \<Rightarrow> string \<Rightarrow> string list \<times> int list \<Rightarrow> string list \<times> int list" where
  "visit_file e tree dp f acc =
     (if \<not> endswith f ''.root'' then acc
      else let fullpath = path_join dp f; nevts = get_num_events e fullpath tree
           in if nevts \<noteq> 0 then (fst acc @ [fullpath], snd acc @ [nevts]) else acc)"

definition visit_dir ::
  "env \<Rightarrow> string \<Rightarrow> bool \<Rightarrow> string \<times> string list \<times> string list
     \<Rightarrow> string list \<times> int list \<Rightarrow> string list \<times> int list" where
  "visit_dir e tree test_sample entry acc =
     (case entry of (dp, dn, filenames) \<Rightarrow>
        if str_in ''failed'' dp \<or> str_in ''ignore'' dp then acc
        else if \<not> test_sample \<and> str_in ''test_sample'' dp then acc
        else if test_sample \<and> \<not> str_in ''test_sample'' dp then acc
        else fold (visit_file e tree dp) filenames acc)"

definition updateFilelist :: "env \<Rightarrow> bool \<Rightarrow> metadata \<Rightarrow> metadata" where
  "updateFilelist e test_sample md =
     (let acc = fold (visit_dir e (treename md) test_sample) (os_walk e (inputdir md)) ([], [])
      in md\<lparr>inputfiles := Some (fst acc), num_events := Some (snd acc),
            total_events := Some (sum_list (snd acc))\<rparr>)"

subsection \<open>Variable selector: \<^verbatim>\<open>_make_varlist\<close>\<close>

text \<open>
  The first group, in the iteration order of \<^verbatim>\<open>var_groups\<close>, one of whose patterns
  matches the branch decides its size: the two \<^verbatim>\<open>break\<close>s leave the remaining patterns
  and groups untried.
\<close>

fun first_group ::
  "env \<Rightarrow> (string \<times> (string list \<times> int option)) list \<Rightarrow> string \<Rightarrow> int option option" where
  "first_group e [] k = None"
| "first_group e ((v_group, (regexes, sz)) # gs) k =
     (if list_ex (\<lambda>regex. re_match e regex k) regexes then Some sz else first_group e gs k)"

definition select_branch ::
  "env \<Rightarrow> (string \<times> (string list \<times> int option)) list \<Rightarrow> string
     \<Rightarrow> string list \<times> (string \<times> int option) list
     \<Rightarrow> string list \<times> (string \<times> int option) list" where
  "select_branch e groups k acc =
     (case first_group e groups k of
        None \<Rightarrow> acc
      | Some sz \<Rightarrow> (fst acc @ [k], dict_set k sz (snd acc)))"

text \<open>
  \<^verbatim>\<open>list.remove(x)\<close> deletes the first occurrence of \<open>x\<close> and raises \<^verbatim>\<open>ValueError\<close>
  when there is none; the loop over the blacklist and the labels catches that exception.
\<close>

definition list_remove :: "'a \<Rightarrow> 'a list \<Rightarrow> error + 'a list" where
  "list_remove x xs = (if x \<in> set xs then Inr (remove1 x xs) else Inl ValueError)"

definition remove_tolerant :: "string \<Rightarrow> string list \<Rightarrow> string list" where
  "remove_tolerant var vb = (case list_remove var vb of Inr vb' \<Rightarrow> vb' | Inl err \<Rightarrow> vb)"

definition make_varlist :: "env \<Rightarrow> metadata \<Rightarrow> error option \<times> metadata" where
  "make_varlist e md =
     (case inputfiles md of
        None \<Rightarrow> (Some TypeError, md)
      | Some [] \<Rightarrow> (Some IndexError, md)
      | Some (f # _) \<Rightarrow>
          let allb = root2array_names e f (treename md);
              sel = fold (select_branch e (var_groups md)) allb ([], []);
              vb = fold remove_tolerant (var_blacklist md @ label_branches md) (fst sel)
          in (None, md\<lparr>all_branches := Some allb, var_branches := Some vb,
                         var_sizes := Some (snd sel)\<rparr>))"

subsection \<open>Reweighting calculator: \<^verbatim>\<open>_prepare_reweight_info\<close> and \<^verbatim>\<open>_make_weights\<close>\<close>

text \<open>
  \<^verbatim>\<open>np.histogram(a, bins=edges, range=...)\<close> for an explicit sequence of edges, as numpy
  documents it: the edges must not decrease (\<^verbatim>\<open>ValueError\<close> otherwise); every bin but
  the last is half-open, the last one is closed; a value outside the edges is counted in
  no bin. The \<^verbatim>\<open>range\<close> argument does not change the edges of an explicit sequence; the
  source computes it with \<^verbatim>\<open>min\<close> and \<^verbatim>\<open>max\<close> of the edges, which raise \<^verbatim>\<open>ValueError\<close>
  on an empty list. The counts are converted to floats by \<^verbatim>\<open>np.asfarray\<close>.
\<close>

fun bin_counts :: "real list \<Rightarrow> real list \<Rightarrow> nat list" where
  "bin_counts a [lo, hi] = [length (filter (\<lambda>x. lo \<le> x \<and> x \<le> hi) a)]"
| "bin_counts a (lo # hi # es) =
     length (filter (\<lambda>x. lo \<le> x \<and> x < hi) a) # bin_counts a (hi # es)"
| "bin_counts a es = []"

definition np_histogram :: "real list \<Rightarrow> real list \<Rightarrow> error + real list" where
  "np_histogram a bins =
     (if bins = [] then Inl ValueError
      else if \<not> sorted bins then Inl ValueError
      else Inr (map real (bin_counts a bins)))"

text \<open>
  \<^verbatim>\<open>rec[var][rec[label] == 1]\<close>: the values of the reweight variable in the rows whose
  label equals one (boolean-mask indexing).
\<close>

definition mask_select :: "'a list \<Rightarrow> bool list \<Rightarrow> 'a list" where
  "mask_select xs pos = map fst (filter snd (zip xs pos))"

definition selected :: "recarray \<Rightarrow> string \<Rightarrow> string \<Rightarrow> real list" where
  "selected rec label var =
     mask_select (map (\<lambda>row. row var) rec) (map (\<lambda>row. row label = 1) rec)"

text \<open>
  The loop over the bins writes through \<^verbatim>\<open>result[label]['hist']\<close>, which is the view
  \<^verbatim>\<open>hist[:]\<close> and shares its buffer with \<^verbatim>\<open>hist\<close>: one array is read and written in
  place, index by index. \<^verbatim>\<open>raw_hist\<close> was copied by \<^verbatim>\<open>tolist()\<close> before the loop.
\<close>

definition adjust :: "real \<Rightarrow> real list \<Rightarrow> real list" where
  "adjust ref_val h =
     fold (\<lambda>i h. if h ! i \<noteq> 0 then h[i := ref_val / h ! i] else h) [0..<length h] h"

definition label_step ::
  "real list \<Rightarrow> string \<Rightarrow> recarray \<Rightarrow> string
     \<Rightarrow> (string \<times> real) list \<times> (string \<times> label_info) list
     \<Rightarrow> error + (string \<times> real) list \<times> (string \<times> label_info) list" where
  "label_step bins var rec label acc =
     (case np_histogram (selected rec label var) bins of
        Inl err \<Rightarrow> Inl err
      | Inr h \<Rightarrow>
          (case py_min (last2 h) of
             Inl err \<Rightarrow> Inl err
           | Inr tail_min \<Rightarrow>
               if tail_min < 10 then Inl RuntimeError
               else (case py_min (filter (\<lambda>x. x > 0) h) of
                       Inl err \<Rightarrow> Inl err
                     | Inr ref_val \<Rightarrow>
                         Inr (dict_set label ref_val (fst acc),
                              dict_set label
                                \<lparr>bin_edges = bins, hist = adjust ref_val h, raw_hist = h,
                                 class_wgt = None\<rparr> (snd acc)))))"

text \<open>
  The second loop. \<^verbatim>\<open>result[label]['hist'].tolist()\<close> raises \<^verbatim>\<open>AttributeError\<close> when
  the entry was converted to a list before, that is when the label occurs twice in the label
  list; the entry then already has its class weight.
\<close>

definition class_step ::
  "real \<Rightarrow> (string \<times> real) list \<Rightarrow> string \<Rightarrow> (string \<times> label_info) list
     \<Rightarrow> error + (string \<times> label_info) list" where
  "class_step min_nevt class_events label result =
     (case dict_get class_events label of
        Inl err \<Rightarrow> Inl err
      | Inr nevt \<Rightarrow>
          (case dict_get result label of
             Inl err \<Rightarrow> Inl err
           | Inr info \<Rightarrow>
               if class_wgt info \<noteq> None then Inl AttributeError
               else Inr (dict_set label (info\<lparr>class_wgt := Some (min_nevt / nevt)\<rparr>) result)))"

definition prepare_reweight_info :: "metadata \<Rightarrow> recarray \<Rightarrow> error + (string \<times> label_info) list" where
  "prepare_reweight_info md rec =
     (case fold_err (label_step (reweight_bins md) (reweight_var md) rec) (label_branches md) ([], []) of
        Inl err \<Rightarrow> Inl err
      | Inr (class_events, result) \<Rightarrow>
          (case py_min (map snd class_events) of
             Inl err \<Rightarrow> Inl err
           | Inr min_nevt \<Rightarrow>
               fold_err (class_step min_nevt class_events) (label_branches md) result))"

text \<open>
  \<^verbatim>\<open>_make_weights\<close> reads the sample and assigns \<^verbatim>\<open>self.reweight_info\<close> last: the
  object is the one it was given whenever an exception leaves the method.
\<close>

definition sample_fraction :: "int \<Rightarrow> int option \<Rightarrow> error + real" where
  "sample_fraction n_wanted tot =
     (if n_wanted > 0 then
        (case tot of
           None \<Rightarrow> Inl AttributeError
         | Some t \<Rightarrow> if t = 0 then Inl ZeroDivisionError else Inr (real_of_int n_wanted / real_of_int t))
      else Inr 1)"

definition read_sample :: "env \<Rightarrow> metadata \<Rightarrow> real \<Rightarrow> error + recarray" where
  "read_sample e md fr =
     (let branches = label_branches md @ [reweight_var md] in
      case inputfiles md of
        None \<Rightarrow> Inl TypeError
      | Some fs \<Rightarrow>
          if fr < 1 then
            (case num_events md of
               None \<Rightarrow> Inl TypeError
             | Some ns \<Rightarrow>
                 let pieces = map (\<lambda>(fn, n). root2array_rec e [fn] (treename md) (selection md)
                                     branches (Some (py_int (fr * real_of_int n)))) (zip fs ns)
                 in if pieces = [] then Inl ValueError else Inr (concat pieces))
          else Inr (root2array_rec e fs (treename md) (selection md) branches None))"

definition make_weights :: "env \<Rightarrow> metadata \<Rightarrow> error option \<times> metadata" where
  "make_weights e md =
     (case sample_fraction (reweight_events md) (total_events md) of
        Inl err \<Rightarrow> (Some err, md)
      | Inr fr \<Rightarrow>
          (case read_sample e md fr of
             Inl err \<Rightarrow> (Some err, md)
           | Inr rec \<Rightarrow>
               (case prepare_reweight_info md rec of
                  Inl err \<Rightarrow> (Some err, md)
                | Inr info \<Rightarrow> (None, md\<lparr>reweight_info := Some info\<rparr>))))"

subsection \<open>Statistics calculator: \<^verbatim>\<open>_make_infos\<close>\<close>

text \<open>
  The numpy reductions, on a non-empty array of finite values. \<^verbatim>\<open>np.percentile\<close>
  interpolates linearly between the two order statistics next to the position
  \<open>q / 100 * (n - 1)\<close>; \<^verbatim>\<open>np.std\<close> is the population standard deviation.
\<close>

definition np_percentile :: "real list \<Rightarrow> real \<Rightarrow> real" where
  "np_percentile a q =
     (let s = sort a;
          idx = q / 100 * real (length a - 1);
          lo = nat \<lfloor>idx\<rfloor>;
          hi = min (lo + 1) (length a - 1);
          w = idx - real lo
      in s ! lo * (1 - w) + s ! hi * w)"

definition np_min :: "real list \<Rightarrow> real" where
  "np_min a = fold min (tl a) (hd a)"

definition np_max :: "real list \<Rightarrow> real" where
  "np_max a = fold max (tl a) (hd a)"

definition np_mean :: "real list \<Rightarrow> real" where
  "np_mean a = sum_list a / real (length a)"

definition np_std :: "real list \<Rightarrow> real" where
  "np_std a = sqrt (np_mean (map (\<lambda>x. (x - np_mean a)\<^sup>2) a))"

text \<open>
  \<^verbatim>\<open>np.nan_to_num\<close> maps NaN to zero and an infinity to the finite value of largest
  magnitude of the array's type, with the sign of the infinity.
\<close>

definition finfo_max :: "dtype \<Rightarrow> real" where
  "finfo_max dt = (case dt of Float32 \<Rightarrow> (2 - 1 / 2 ^ 23) * 2 ^ 127
                            | Float64 \<Rightarrow> (2 - 1 / 2 ^ 52) * 2 ^ 1023)"

fun nan_to_num :: "dtype \<Rightarrow> npfloat \<Rightarrow> real" where
  "nan_to_num dt (Fin x) = x"
| "nan_to_num dt NaN = 0"
| "nan_to_num dt PosInf = finfo_max dt"
| "nan_to_num dt NegInf = - finfo_max dt"

text \<open>Python 2's \<^verbatim>\<open>round\<close> rounds a half away from zero.\<close>

definition py_round :: "real \<Rightarrow> int" where
  "py_round x = (if 0 \<le> x then \<lfloor>x + 1 / 2\<rfloor> else \<lceil>x - 1 / 2\<rceil>)"

text \<open>\<^verbatim>\<open>if var_size:\<close> holds for a size that is neither \<^verbatim>\<open>None\<close> nor zero.\<close>

definition provided :: "int option \<Rightarrow> bool" where
  "provided var_size = (case var_size of None \<Rightarrow> False | Some n \<Rightarrow> n \<noteq> 0)"

text \<open>
  The size of an object-typed column. On an array without rows the percentile of the
  lengths is NaN, which \<^verbatim>\<open>int(round(...))\<close> refuses with \<^verbatim>\<open>ValueError\<close>.
\<close>

definition ragged_size :: "int option \<Rightarrow> npfloat list list \<Rightarrow> error + int" where
  "ragged_size var_size rows =
     (case var_size of
        Some n \<Rightarrow> if provided var_size then Inr n
                  else if rows = [] then Inl ValueError
                  else Inr (py_round (np_percentile (map (\<lambda>row. real (length row)) rows) 95))
      | None \<Rightarrow> if rows = [] then Inl ValueError
                else Inr (py_round (np_percentile (map (\<lambda>row. real (length row)) rows) 95)))"

text \<open>
  The statistics record of one variable. A reduction over an empty array raises
  \<^verbatim>\<open>ValueError\<close>, and so does \<^verbatim>\<open>np.concatenate\<close> of an array without rows.
\<close>

definition scalar_stats :: "int option \<Rightarrow> real list \<Rightarrow> error + var_info" where
  "scalar_stats sz a =
     (if a = [] then Inl ValueError
      else Inr \<lparr>size = sz, median = np_percentile a 50, upper = np_percentile a 84,
                minimum = np_min a, maximum = np_max a, mean = np_mean a, std = np_std a\<rparr>)"

definition branch_info :: "int option \<Rightarrow> column \<Rightarrow> error + var_info" where
  "branch_info var_size a =
     (case a of
        Flat xs \<Rightarrow> scalar_stats None xs
      | Ragged dt rows \<Rightarrow>
          (case ragged_size var_size rows of
             Inl err \<Rightarrow> Inl err
           | Inr sz \<Rightarrow>
               if rows = [] then Inl ValueError
               else scalar_stats (Some sz) (map (nan_to_num dt) (concat rows))))"

text \<open>
  \<^verbatim>\<open>np.concatenate\<close> of the pieces read from the sampled files. A branch has one type in
  every file; pieces of both kinds are outside the reader's contract and are an error here.
\<close>

fun flat_values :: "column \<Rightarrow> real list option" where
  "flat_values (Flat xs) = Some xs"
| "flat_values (Ragged dt rows) = None"

fun ragged_rows :: "column \<Rightarrow> npfloat list list option" where
  "ragged_rows (Flat xs) = None"
| "ragged_rows (Ragged dt rows) = Some rows"

definition np_concatenate :: "column list \<Rightarrow> error + column" where
  "np_concatenate pieces =
     (case pieces of
        [] \<Rightarrow> Inl ValueError
      | Flat xs # rest \<Rightarrow>
          (case those (map flat_values pieces) of
             None \<Rightarrow> Inl TypeError | Some xss \<Rightarrow> Inr (Flat (concat xss)))
      | Ragged dt rows # rest \<Rightarrow>
          (case those (map ragged_rows pieces) of
             None \<Rightarrow> Inl TypeError | Some rowss \<Rightarrow> Inr (Ragged dt (concat rowss))))"

text \<open>Indexing a list that may be \<^verbatim>\<open>None\<close>, and a list comprehension over it.\<close>

definition py_index :: "'a list option \<Rightarrow> nat \<Rightarrow> error + 'a" where
  "py_index xs i =
     (case xs of
        None \<Rightarrow> Inl TypeError
      | Some ys \<Rightarrow> if i < length ys then Inr (ys ! i) else Inl IndexError)"

fun map_err :: "('a \<Rightarrow> error + 'b) \<Rightarrow> 'a list \<Rightarrow> error + 'b list" where
  "map_err f [] = Inr []"
| "map_err f (x # xs) =
     (case f x of
        Inl err \<Rightarrow> Inl err
      | Inr y \<Rightarrow> (case map_err f xs of Inl err \<Rightarrow> Inl err | Inr ys \<Rightarrow> Inr (y # ys)))"

text \<open>
  The choice of the sampled files and of the fraction of each that is read: the files, the
  event counts (either may still be \<^verbatim>\<open>None\<close> when no sample size is configured) and
  the fraction.
\<close>

definition choose_files ::
  "env \<Rightarrow> metadata \<Rightarrow> error + string list option \<times> int list option \<times> real" where
  "choose_files e md =
     (if metadata_events md > 0 then
        (case total_events md of
           None \<Rightarrow> Inl AttributeError
         | Some tot \<Rightarrow>
             if tot = 0 then Inl ZeroDivisionError
             else (case inputfiles md of
                     None \<Rightarrow> Inl TypeError
                   | Some fs \<Rightarrow>
                       let nfiles = py_int (5 * real_of_int (metadata_events md) / real_of_int tot
                                            * real (length fs));
                           file_inds = py_take nfiles (shuffle e [0..<length fs])
                       in (case map_err (py_index (inputfiles md)) file_inds of
                             Inl err \<Rightarrow> Inl err
                           | Inr fs' \<Rightarrow>
                               (case map_err (py_index (num_events md)) file_inds of
                                  Inl err \<Rightarrow> Inl err
                                | Inr ns' \<Rightarrow>
                                    if sum_list ns' = 0 then Inl ZeroDivisionError
                                    else Inr (Some fs', Some ns',
                                              real_of_int (metadata_events md)
                                              / real_of_int (sum_list ns'))))))
      else Inr (inputfiles md, num_events md, 1))"

definition read_column ::
  "env \<Rightarrow> metadata \<Rightarrow> string list \<Rightarrow> int list \<Rightarrow> real \<Rightarrow> string \<Rightarrow> error + column" where
  "read_column e md fs ns fr var =
     np_concatenate
       (map (\<lambda>(fn, n). root2array_col e fn (treename md) (selection md) var
                        (py_int (fr * real_of_int n))) (zip fs ns))"

definition var_step ::
  "env \<Rightarrow> metadata \<Rightarrow> string list option \<times> int list option \<times> real \<Rightarrow> string
     \<Rightarrow> error + var_info" where
  "var_step e md sample var =
     (case sample of (fs, ns, fr) \<Rightarrow>
        (case var_sizes md of
           None \<Rightarrow> Inl AttributeError
         | Some sizes \<Rightarrow>
             (case dict_get sizes var of
                Inl err \<Rightarrow> Inl err
              | Inr var_size \<Rightarrow>
                  (case (fs, ns) of
                     (Some fs', Some ns') \<Rightarrow>
                       (case read_column e md fs' ns' fr var of
                          Inl err \<Rightarrow> Inl err
                        | Inr a \<Rightarrow> branch_info var_size a)
                   | _ \<Rightarrow> Inl TypeError))))"

text \<open>
  The loop over the selected variables fills \<^verbatim>\<open>self.branches_info\<close> in place: when a
  variable raises, the entries of the variables before it are in the object.
\<close>

fun infos_loop ::
  "env \<Rightarrow> metadata \<Rightarrow> string list option \<times> int list option \<times> real \<Rightarrow> string list
     \<Rightarrow> (string \<times> var_info) list \<Rightarrow> error option \<times> (string \<times> var_info) list" where
  "infos_loop e md sample [] infos = (None, infos)"
| "infos_loop e md sample (var # vars) infos =
     (case var_step e md sample var of
        Inl err \<Rightarrow> (Some err, infos)
      | Inr info \<Rightarrow> infos_loop e md sample vars (dict_set var info infos))"

definition make_infos :: "env \<Rightarrow> metadata \<Rightarrow> error option \<times> metadata" where
  "make_infos e md =
     (case choose_files e md of
        Inl err \<Rightarrow> (Some err, md)
      | Inr sample \<Rightarrow>
          (case var_branches md of
             None \<Rightarrow> (Some AttributeError, md\<lparr>branches_info := Some []\<rparr>)
           | Some vars \<Rightarrow>
               (case infos_loop e md sample vars [] of
                  (err, infos) \<Rightarrow> (err, md\<lparr>branches_info := Some infos\<rparr>))))"

subsection \<open>Metadata store: \<^verbatim>\<open>writeMetadata\<close>, \<^verbatim>\<open>loadMetadata\<close>, \<^verbatim>\<open>produceMetadata\<close>\<close>

text \<open>
  The Python values that an attribute of the object holds, and the values of a JSON
  document. Floats are finite; the keys of a \<^verbatim>\<open>dict\<close> are strings. The \<^verbatim>\<open>json\<close>
  module writes a list and a tuple alike as an array and reads an array back as a list;
  with \<^verbatim>\<open>sort_keys=True\<close> the items of every object are written in the order of their
  keys. The text of the document is not modelled: the loader reads the value the encoder
  wrote.
\<close>

datatype pyval =
    PNone | PBool bool | PInt int | PFloat real | PStr string
  | PList "pyval list" | PTuple "pyval list" | PDict "(string \<times> pyval) list"

datatype json =
    JNull | JBool bool | JInt int | JFloat real | JStr string
  | JArr "json list" | JObj "(string \<times> json) list"

primrec json_of :: "pyval \<Rightarrow> json" where
  "json_of PNone = JNull"
| "json_of (PBool b) = JBool b"
| "json_of (PInt i) = JInt i"
| "json_of (PFloat x) = JFloat x"
| "json_of (PStr s) = JStr s"
| "json_of (PList xs) = JArr (map json_of xs)"
| "json_of (PTuple xs) = JArr (map json_of xs)"
| "json_of (PDict kvs) = JObj (sort_key fst (map (map_prod id json_of) kvs))"

primrec py_of :: "json \<Rightarrow> pyval" where
  "py_of JNull = PNone"
| "py_of (JBool b) = PBool b"
| "py_of (JInt i) = PInt i"
| "py_of (JFloat x) = PFloat x"
| "py_of (JStr s) = PStr s"
| "py_of (JArr xs) = PList (map py_of xs)"
| "py_of (JObj kvs) = PDict (map (map_prod id py_of) kvs)"

text \<open>
  \<^verbatim>\<open>self.__dict__\<close>: every attribute the object has, under its Python name. The
  attributes that no method has created yet are not in it.
\<close>

definition py_opt :: "('a \<Rightarrow> pyval) \<Rightarrow> 'a option \<Rightarrow> pyval" where
  "py_opt f x = (case x of None \<Rightarrow> PNone | Some y \<Rightarrow> f y)"

definition py_strs :: "string list \<Rightarrow> pyval" where
  "py_strs xs = PList (map PStr xs)"

definition py_floats :: "real list \<Rightarrow> pyval" where
  "py_floats xs = PList (map PFloat xs)"

definition attr :: "string \<Rightarrow> ('a \<Rightarrow> pyval) \<Rightarrow> 'a option \<Rightarrow> (string \<times> pyval) list" where
  "attr name f x = (case x of None \<Rightarrow> [] | Some y \<Rightarrow> [(name, f y)])"

definition py_label_info :: "label_info \<Rightarrow> pyval" where
  "py_label_info info =
     PDict ([(''bin_edges'', py_floats (bin_edges info)), (''hist'', py_floats (hist info)),
             (''raw_hist'', py_floats (raw_hist info))]
            @ attr ''class_wgt'' PFloat (class_wgt info))"

definition py_var_info :: "var_info \<Rightarrow> pyval" where
  "py_var_info info =
     PDict [(''size'', py_opt PInt (size info)), (''median'', PFloat (median info)),
            (''upper'', PFloat (upper info)), (''min'', PFloat (minimum info)),
            (''max'', PFloat (maximum info)), (''mean'', PFloat (mean info)),
            (''std'', PFloat (std info))]"

definition to_dict :: "metadata \<Rightarrow> (string \<times> pyval) list" where
  "to_dict md =
     [(''_inputdir'', PStr (inputdir md)),
      (''treename'', PStr (treename md)),
      (''reweight_var'', PStr (reweight_var md)),
      (''_reweight_events'', PInt (reweight_events md)),
      (''_reweight_bins'', py_floats (reweight_bins md)),
      (''_metadata_events'', PInt (metadata_events md)),
      (''selection'', py_opt PStr (selection md)),
      (''var_groups'',
         PDict (map (\<lambda>(g, (regexes, sz)). (g, PTuple [py_strs regexes, py_opt PInt sz]))
                  (var_groups md))),
      (''var_blacklist'', py_strs (var_blacklist md)),
      (''var_no_transform_branches'', py_opt py_strs (var_no_transform_branches md)),
      (''label_branches'', py_strs (label_branches md)),
      (''var_img'', PStr (var_img md)),
      (''var_pos'', py_strs (var_pos md)),
      (''n_pixels'', PInt (n_pixels md)),
      (''img_ranges'', PList (map py_floats (img_ranges md))),
      (''inputfiles'', py_opt py_strs (inputfiles md)),
      (''num_events'', py_opt (\<lambda>ns. PList (map PInt ns)) (num_events md))]
     @ attr ''_total_events'' PInt (total_events md)
     @ attr ''_all_branches'' py_strs (all_branches md)
     @ attr ''var_branches'' py_strs (var_branches md)
     @ attr ''var_sizes'' (\<lambda>d. PDict (map (map_prod id (py_opt PInt)) d)) (var_sizes md)
     @ attr ''reweight_info'' (\<lambda>d. PDict (map (map_prod id py_label_info) d)) (reweight_info md)
     @ attr ''branches_info'' (\<lambda>d. PDict (map (map_prod id py_var_info) d)) (branches_info md)"

text \<open>
  The files are a map from paths to documents. \<^verbatim>\<open>writeMetadata\<close> dumps the whole
  \<^verbatim>\<open>__dict__\<close>, the private attributes too; \<^verbatim>\<open>loadMetadata\<close> sets every key of the
  document that does not start with an underscore as an attribute of the object it is
  called on. A document that is not an object is not one \<^verbatim>\<open>writeMetadata\<close> writes; the
  loader's exception on it is given as \<^verbatim>\<open>TypeError\<close>.
\<close>

type_synonym files = "string \<rightharpoonup> json"

definition write_dict :: "env \<Rightarrow> string \<Rightarrow> (string \<times> pyval) list \<Rightarrow> files \<Rightarrow> error + files" where
  "write_dict e filepath d fs =
     (if writable e filepath then Inr (fs(filepath \<mapsto> json_of (PDict d))) else Inl IOError)"

definition set_loaded :: "string \<times> json \<Rightarrow> (string \<times> pyval) list \<Rightarrow> (string \<times> pyval) list" where
  "set_loaded kv obj =
     (case kv of (k, v) \<Rightarrow> if startswith k ''_'' then obj else dict_set k (py_of v) obj)"

definition loadMetadata :: "string \<Rightarrow> files \<Rightarrow> (string \<times> pyval) list \<Rightarrow> error + (string \<times> pyval) list" where
  "loadMetadata filepath fs obj =
     (case fs filepath of
        None \<Rightarrow> Inl IOError
      | Some (JObj kvs) \<Rightarrow> Inr (fold set_loaded kvs obj)
      | Some doc \<Rightarrow> Inl TypeError)"

record world =
  obj :: metadata
  files :: files

definition writeMetadata :: "env \<Rightarrow> string \<Rightarrow> world \<Rightarrow> error option \<times> world" where
  "writeMetadata e filepath w =
     (case write_dict e filepath (to_dict (obj w)) (files w) of
        Inl err \<Rightarrow> (Some err, w)
      | Inr fs \<Rightarrow> (None, w\<lparr>files := fs\<rparr>))"

text \<open>
  \<^verbatim>\<open>produceMetadata\<close> runs the four steps in their fixed order and writes the descriptor
  last; an exception in a step leaves the method at once.
\<close>

definition produceMetadata :: "env \<Rightarrow> string \<Rightarrow> world \<Rightarrow> error option \<times> world" where
  "produceMetadata e filepath w =
     (let md1 = updateFilelist e False (obj w) in
      case make_varlist e md1 of
        (Some err, md2) \<Rightarrow> (Some err, w\<lparr>obj := md2\<rparr>)
      | (None, md2) \<Rightarrow>
          (case make_weights e md2 of
             (Some err, md3) \<Rightarrow> (Some err, w\<lparr>obj := md3\<rparr>)
           | (None, md3) \<Rightarrow>
               (case make_infos e md3 of
                  (Some err, md4) \<Rightarrow> (Some err, w\<lparr>obj := md4\<rparr>)
                | (None, md4) \<Rightarrow> writeMetadata e filepath (w\<lparr>obj := md4\<rparr>))))"

subsection \<open>Notions used in the statements\<close>

text \<open>
  The raw histogram of a label over the configured edges, the reference count of a
  histogram (the least of its non-zero counts) and the tail-bin check of the calculator.
\<close>

definition raw_counts :: "metadata \<Rightarrow> recarray \<Rightarrow> string \<Rightarrow> real list" where
  "raw_counts md rec label =
     map real (bin_counts (selected rec label (reweight_var md)) (reweight_bins md))"

definition ref_count :: "real list \<Rightarrow> real" where
  "ref_count h = Min {c \<in> set h. c \<noteq> 0}"

definition tail_low :: "real list \<Rightarrow> bool" where
  "tail_low h = (\<exists>c \<in> set (last2 h). c < 10)"

text \<open>The entry of a label after the first loop of the calculator: no class weight yet.\<close>

definition entry0 :: "real list \<Rightarrow> real list \<Rightarrow> label_info" where
  "entry0 bins h = \<lparr>bin_edges = bins, hist = adjust (ref_count h) h, raw_hist = h, class_wgt = None\<rparr>"

text \<open>
  The size the specification gives for a variable read as the column \<open>a\<close>: none for a flat
  column; for an object-typed column the configured size when one is provided, and else
  the rounded 95th percentile of the lengths of its rows.
\<close>

definition expected_size :: "int option \<Rightarrow> column \<Rightarrow> int option" where
  "expected_size var_size a =
     (case a of
        Flat xs \<Rightarrow> None
      | Ragged dt rows \<Rightarrow>
          Some (case var_size of
                  Some n \<Rightarrow> if provided var_size then n
                            else py_round (np_percentile (map (\<lambda>row. real (length row)) rows) 95)
                | None \<Rightarrow> py_round (np_percentile (map (\<lambda>row. real (length row)) rows) 95)))"

text \<open>
  Python's \<^verbatim>\<open>==\<close> on these values: numbers (and booleans) compare by value, strings,
  lists and tuples componentwise, a list never equals a tuple, and two dicts are equal when
  they have the same keys with equal values, in whatever order their items are kept.
\<close>

fun py_num :: "pyval \<Rightarrow> real option" where
  "py_num (PBool b) = Some (if b then 1 else 0)"
| "py_num (PInt i) = Some (real_of_int i)"
| "py_num (PFloat x) = Some x"
| "py_num v = None"

fun py_eq :: "pyval \<Rightarrow> pyval \<Rightarrow> bool" where
  "py_eq (PList xs) (PList ys) = list_all2 py_eq xs ys"
| "py_eq (PTuple xs) (PTuple ys) = list_all2 py_eq xs ys"
| "py_eq (PDict a) (PDict b) =
     (set (map fst a) = set (map fst b)
      \<and> list_all (\<lambda>(k, v). case map_of b k of None \<Rightarrow> False | Some v' \<Rightarrow> py_eq v v') a)"
| "py_eq (PStr s) (PStr t) = (s = t)"
| "py_eq PNone PNone = True"
| "py_eq u v = (case (py_num u, py_num v) of (Some x, Some y) \<Rightarrow> x = y | _ \<Rightarrow> False)"

text \<open>A value as it is after every tuple in it has been replaced by a list.\<close>

primrec as_lists :: "pyval \<Rightarrow> pyval" where
  "as_lists PNone = PNone"
| "as_lists (PBool b) = PBool b"
| "as_lists (PInt i) = PInt i"
| "as_lists (PFloat x) = PFloat x"
| "as_lists (PStr s) = PStr s"
| "as_lists (PList xs) = PList (map as_lists xs)"
| "as_lists (PTuple xs) = PList (map as_lists xs)"
| "as_lists (PDict kvs) = PDict (map (map_prod id as_lists) kvs)"

text \<open>A value all of whose dicts have one item per key.\<close>

primrec dict_ok :: "pyval \<Rightarrow> bool" where
  "dict_ok PNone = True"
| "dict_ok (PBool b) = True"
| "dict_ok (PInt i) = True"
| "dict_ok (PFloat x) = True"
| "dict_ok (PStr s) = True"
| "dict_ok (PList xs) = list_all dict_ok xs"
| "dict_ok (PTuple xs) = list_all dict_ok xs"
| "dict_ok (PDict kvs) = (distinct (map fst kvs) \<and> list_all (pred_prod (\<lambda>k. True) dict_ok) kvs)"

text \<open>A document all of whose objects have their items in the order of the keys.\<close>

primrec keys_sorted :: "json \<Rightarrow> bool" where
  "keys_sorted JNull = True"
| "keys_sorted (JBool b) = True"
| "keys_sorted (JInt i) = True"
| "keys_sorted (JFloat x) = True"
| "keys_sorted (JStr s) = True"
| "keys_sorted (JArr xs) = list_all keys_sorted xs"
| "keys_sorted (JObj kvs) = (sorted (map fst kvs) \<and> list_all (pred_prod (\<lambda>k. True) keys_sorted) kvs)"

text \<open>The attribute \<open>k\<close> of the object a load returned, if the load returned.\<close>

definition loaded_attr :: "error + (string \<times> pyval) list \<Rightarrow> string \<Rightarrow> pyval option" where
  "loaded_attr r k = (case r of Inl err \<Rightarrow> None | Inr obj' \<Rightarrow> map_of obj' k)"

subsection \<open>Sample inputs\<close>

text \<open>
  A small environment and a small configuration, on which the theorems below are
  instantiated. The sample pattern matcher reads a pattern as a literal prefix.
\<close>

definition env0 :: env where
  "env0 = \<lparr>os_walk = (\<lambda>d. [(d, [], [''a.root'', ''notes.txt''])]),
           get_num_events = (\<lambda>f t. 100),
           re_match = (\<lambda>regex k. startswith k regex),
           root2array_names = (\<lambda>f t. [''fj_pt'', ''fj_gen_pt'', ''label_A'', ''pfcand_ptrel'', ''npv'']),
           root2array_rec = (\<lambda>fs t s bs stop. []),
           root2array_col = (\<lambda>f t s b stop. Flat []),
           shuffle = (\<lambda>inds. inds),
           writable = (\<lambda>p. True)\<rparr>"

definition md0 :: metadata where
  "md0 = \<lparr>inputdir = ''data'', treename = ''deepntuplizer/tree'', reweight_var = ''fj_pt'',
          reweight_events = 0, reweight_bins = [0, 1, 2, 3, 4], metadata_events = 0,
          selection = None,
          var_groups = [(''fj'', ([''fj_''], None)), (''pfcand'', ([''pfcand_''], Some 100))],
          var_blacklist = [''fj_gen_pt'', ''no_such_branch''],
          var_no_transform_branches = None,
          label_branches = [''label_A''],
          var_img = ''pfcand_ptrel'', var_pos = [''pfcand_etarel'', ''pfcand_phirel''],
          n_pixels = 64, img_ranges = [[-0.8, 0.8], [-0.8, 0.8]],
          inputfiles = None, num_events = None, total_events = None, all_branches = None,
          var_branches = None, var_sizes = None, reweight_info = None, branches_info = None\<rparr>"

text \<open>
  Sample rows: a row asserts one label and carries a value of the reweight variable
  \<^verbatim>\<open>fj_pt\<close>; a sample array repeats such rows.
\<close>

definition sample_row :: "string \<Rightarrow> real \<Rightarrow> string \<Rightarrow> real" where
  "sample_row label x = (\<lambda>name. if name = label then 1 else if name = ''fj_pt'' then x else 0)"

definition sample_rec :: "string \<Rightarrow> (nat \<times> real) list \<Rightarrow> recarray" where
  "sample_rec label counts = concat (map (\<lambda>(n, x). replicate n (sample_row label x)) counts)"

text \<open>
  A sample run of \<^verbatim>\<open>produceMetadata\<close>: the reader returns a sample in which the last two
  bins of the label count five and three events; the object after the file enumerator and
  after the variable selector.
\<close>

definition env1 :: env where
  "env1 = env0\<lparr>root2array_rec := (\<lambda>fs t s bs stop.
             sample_rec ''label_A'' [(100, 0.5), (100, 1.5), (5, 2.5), (3, 3.5)])\<rparr>"

definition md1 :: metadata where
  "md1 = md0\<lparr>inputfiles := Some [''data/a.root''], num_events := Some [100],
             total_events := Some 100\<rparr>"

definition md2 :: metadata where
  "md2 = md1\<lparr>all_branches := Some [''fj_pt'', ''fj_gen_pt'', ''label_A'', ''pfcand_ptrel'', ''npv''],
             var_branches := Some [''fj_pt'', ''pfcand_ptrel''],
             var_sizes := Some [(''fj_pt'', None), (''fj_gen_pt'', None), (''pfcand_ptrel'', Some 100)]\<rparr>"

text \<open>
  A sample for the statistics calculator: one flat branch and two object-typed branches,
  the rows of which have the lengths 1, 2, 2, 3, 3, 3, 3, 3, 3 and 10; a size is configured
  for one of the two.
\<close>

definition rows10 :: "npfloat list list" where
  "rows10 = map (\<lambda>n. replicate n (Fin 1)) [1, 2, 2, 3, 3, 3, 3, 3, 3, 10]"

definition env2 :: env where
  "env2 = env0\<lparr>root2array_col := (\<lambda>f t s b stop.
             if b = ''fj_pt'' then Flat [250, 300, 450] else Ragged Float32 rows10)\<rparr>"

definition md3 :: metadata where
  "md3 = md1\<lparr>var_branches := Some [''fj_pt'', ''pfcand_ptrel'', ''pfcand_etarel''],
             var_sizes := Some [(''fj_pt'', None), (''pfcand_ptrel'', Some 100),
                                (''pfcand_etarel'', None)]\<rparr>"

text \<open>
  A sample on which \<^verbatim>\<open>produceMetadata\<close> succeeds: the label's raw histogram is
  \<open>[50, 0, 100, 20]\<close>.
\<close>

definition env3 :: env where
  "env3 = env2\<lparr>root2array_rec := (\<lambda>fs t s bs stop.
             sample_rec ''label_A'' [(50, 0.5), (100, 2.5), (20, 3.5)])\<rparr>"

definition w0 :: world where
  "w0 = \<lparr>obj = md0, files = Map.empty\<rparr>"

section \<open>Verified properties\<close>

subsection \<open>File enumerator\<close>

lemma visit_file_parallel:
  "length (fst acc) = length (snd acc) \<Longrightarrow>
   length (fst (visit_file e tree dp f acc)) = length (snd (visit_file e tree dp f acc))"
  by (simp add: visit_file_def Let_def)

lemma fold_visit_file_parallel:
  "length (fst acc) = length (snd acc) \<Longrightarrow>
   length (fst (fold (visit_file e tree dp) fs acc)) =
   length (snd (fold (visit_file e tree dp) fs acc))"
  by (induction fs arbitrary: acc) (simp_all add: visit_file_parallel)

lemma visit_dir_parallel:
  "length (fst acc) = length (snd acc) \<Longrightarrow>
   length (fst (visit_dir e tree ts entry acc)) = length (snd (visit_dir e tree ts entry acc))"
  by (cases entry) (simp add: visit_dir_def fold_visit_file_parallel)

lemma fold_visit_dir_parallel:
  "length (fst acc) = length (snd acc) \<Longrightarrow>
   length (fst (fold (visit_dir e tree ts) ds acc)) =
   length (snd (fold (visit_dir e tree ts) ds acc))"
  by (induction ds arbitrary: acc) (simp_all add: visit_dir_parallel)

text \<open>
  Claim C8. After the file enumerator has run, on any directory tree and for either value of
  the test-sample flag, the file list and the event-count list are both assigned and have
  the same length, and the recorded total is the sum of the event-count list.
\<close>

theorem updateFilelist_parallel_lists:
  "\<exists>fs ns. inputfiles (updateFilelist e ts md) = Some fs
         \<and> num_events (updateFilelist e ts md) = Some ns
         \<and> length fs = length ns
         \<and> total_events (updateFilelist e ts md) = Some (sum_list ns)"
  by (simp add: updateFilelist_def Let_def fold_visit_dir_parallel)

subsection \<open>Variable selector\<close>

lemma fold_select_branch_fst:
  "fst (fold (select_branch e groups) ks acc) =
   fst acc @ filter (\<lambda>k. first_group e groups k \<noteq> None) ks"
  by (induction ks arbitrary: acc) (auto simp: select_branch_def split: option.splits)

lemma remove_tolerant_remove1: "remove_tolerant var vb = remove1 var vb"
  by (simp add: remove_tolerant_def list_remove_def remove1_idem)

lemma fold_remove_tolerant_set:
  "distinct vb \<Longrightarrow>
   distinct (fold remove_tolerant vars vb) \<and> set (fold remove_tolerant vars vb) = set vb - set vars"
proof (induction vars arbitrary: vb)
  case Nil
  then show ?case by simp
next
  case (Cons v vars)
  have "distinct (remove1 v vb)" using Cons.prems by simp
  from Cons.IH[OF this] show ?case
    using Cons.prems by (auto simp: remove_tolerant_remove1)
qed

text \<open>
  Claim C9. Whatever the group patterns match, a field name in the blacklist or in the
  label list is not in the final variable list, and the selector raises nothing for an
  entry of either list that no group selected: it returns normally whenever there is a
  first input file to read the schema from. The schema is the tuple of field names of a
  structured array, in which no name occurs twice.
\<close>

theorem make_varlist_removal_wins:
  assumes "inputfiles md = Some (f # fs)"
    and "distinct (root2array_names e f (treename md))"
  shows "fst (make_varlist e md) = None \<and>
         (\<exists>vb. var_branches (snd (make_varlist e md)) = Some vb \<and>
               (\<forall>v \<in> set (var_blacklist md) \<union> set (label_branches md). v \<notin> set vb))"
proof -
  let ?allb = "root2array_names e f (treename md)"
  let ?sel = "fold (select_branch e (var_groups md)) ?allb ([], [])"
  have "distinct (fst ?sel)"
    using assms(2) by (simp add: fold_select_branch_fst)
  from fold_remove_tolerant_set[OF this, of "var_blacklist md @ label_branches md"]
  show ?thesis
    using assms(1) by (auto simp: make_varlist_def Let_def)
qed

theorem make_varlist_removal_wins_witness:
  "fst (make_varlist env0 (md0\<lparr>inputfiles := Some [''a.root'']\<rparr>)) = None \<and>
   var_branches (snd (make_varlist env0 (md0\<lparr>inputfiles := Some [''a.root'']\<rparr>)))
     = Some [''fj_pt'', ''pfcand_ptrel'']"
proof -
  have f: "inputfiles (md0\<lparr>inputfiles := Some [''a.root'']\<rparr>) = Some (''a.root'' # [])"
    by simp
  have d: "distinct (root2array_names env0 ''a.root'' (treename (md0\<lparr>inputfiles := Some [''a.root'']\<rparr>)))"
    by (simp add: env0_def)
  from make_varlist_removal_wins[OF f d] show ?thesis
    by (simp add: make_varlist_def md0_def env0_def select_branch_def remove_tolerant_def
        list_remove_def startswith_def)
qed

subsection \<open>Reweighting calculator\<close>

lemma adjust_prefix:
  fixes r :: real
  shows "k \<le> length h \<Longrightarrow>
   fold (\<lambda>i h. if h ! i \<noteq> 0 then h[i := r / h ! i] else h) [0..<k] h =
   map (\<lambda>c. if c = 0 then 0 else r / c) (take k h) @ drop k h"
proof (induction k)
  case 0
  then show ?case by simp
next
  case (Suc k)
  let ?g = "\<lambda>c. if c = (0::real) then 0 else r / c"
  let ?m = "map ?g (take k h) @ drop k h"
  have k: "k < length h" using Suc.prems by simp
  have nth: "?m ! k = h ! k" using k by (simp add: nth_append)
  have upd: "?m[k := ?g (h ! k)] = map ?g (take (Suc k) h) @ drop (Suc k) h"
    using k by (simp add: take_Suc_conv_app_nth list_update_append Cons_nth_drop_Suc[symmetric])
  have same: "h ! k = 0 \<Longrightarrow> ?m = map ?g (take (Suc k) h) @ drop (Suc k) h"
    using k by (simp add: take_Suc_conv_app_nth Cons_nth_drop_Suc[symmetric])
  show ?case
    using Suc.IH k nth upd same by (auto simp: Let_def)
qed

lemma adjust_map: "adjust r h = map (\<lambda>c. if c = 0 then 0 else r / c) h"
  using adjust_prefix[of "length h" h r] by (simp add: adjust_def)

lemma length_bin_counts: "length (bin_counts a es) = length es - 1"
  by (induction a es rule: bin_counts.induct) simp_all

lemma filter_interval_split:
  fixes lo hi top :: real
  assumes "lo \<le> hi" "hi \<le> top"
  shows "length (filter (\<lambda>x. lo \<le> x \<and> x < hi) a) + length (filter (\<lambda>x. hi \<le> x \<and> x \<le> top) a)
         = length (filter (\<lambda>x. lo \<le> x \<and> x \<le> top) a)"
  using assms by (induction a) auto

lemma sum_bin_counts:
  "sorted es \<Longrightarrow> 2 \<le> length es \<Longrightarrow>
   sum_list (bin_counts a es) = length (filter (\<lambda>x. hd es \<le> x \<and> x \<le> last es) a)"
proof (induction a es rule: bin_counts.induct)
  case (1 a lo hi)
  then show ?case by simp
next
  case (2 a lo hi v va)
  have "hi \<le> last (hi # v # va)" using "2.prems"(1) by auto
  moreover have "lo \<le> hi" using "2.prems"(1) by simp
  ultimately show ?case
    using "2.IH" "2.prems" filter_interval_split[of lo hi "last (hi # v # va)" a]
    by simp
qed simp_all

lemma map_of_dict_set: "map_of (dict_set k v d) = (map_of d)(k \<mapsto> v)"
  by (induction d) (auto simp: fun_eq_iff)

lemma keys_dict_set: "fst ` set (dict_set k v d) = insert k (fst ` set d)"
proof -
  have "fst ` set (dict_set k v d) = dom (map_of (dict_set k v d))"
    by (simp add: dom_map_of_conv_image_fst)
  also have "\<dots> = insert k (dom (map_of d))"
    by (simp add: map_of_dict_set)
  finally show ?thesis by (simp add: dom_map_of_conv_image_fst)
qed

lemma distinct_dict_set: "distinct (map fst d) \<Longrightarrow> distinct (map fst (dict_set k v d))"
  by (induction d) (auto simp: keys_dict_set)

lemma py_min_Inr: "py_min xs = Inr m \<longleftrightarrow> xs \<noteq> [] \<and> m = Min (set xs)"
  by (auto simp: py_min_def min_list_Min)

lemma py_min_Inl: "py_min xs = Inl err \<longleftrightarrow> xs = [] \<and> err = ValueError"
  by (auto simp: py_min_def)

lemma np_histogram_Inr:
  "np_histogram a bins = Inr h \<longleftrightarrow> bins \<noteq> [] \<and> sorted bins \<and> h = map real (bin_counts a bins)"
  by (auto simp: np_histogram_def)

lemma np_histogram_Inl:
  "np_histogram a bins = Inl err \<longleftrightarrow> (bins = [] \<or> \<not> sorted bins) \<and> err = ValueError"
  by (auto simp: np_histogram_def)

lemma last2_Nil: "last2 xs = [] \<longleftrightarrow> xs = []"
  by (cases xs) (auto simp: last2_def)

lemma set_last2_subset: "set (last2 xs) \<subseteq> set xs"
  by (simp add: last2_def set_drop_subset)

lemma tail_min_low: "h \<noteq> [] \<Longrightarrow> (Min (set (last2 h)) < 10) = tail_low h"
  by (simp add: tail_low_def last2_Nil Min_less_iff)

text \<open>The least positive count of a histogram that passed the tail check.\<close>

lemma ref_count_code:
  assumes "\<forall>c \<in> set h. 0 \<le> c"
  shows "Min (set (filter (\<lambda>x. 0 < x) h)) = ref_count h"
proof -
  have "\<And>c. c \<in> set h \<Longrightarrow> (0 < c) = (c \<noteq> 0)"
  proof -
    fix c assume "c \<in> set h"
    then have "0 \<le> c" using assms by blast
    then show "(0 < c) = (c \<noteq> 0)" by linarith
  qed
  then have "{c \<in> set h. 0 < c} = {c \<in> set h. c \<noteq> 0}" by blast
  then show ?thesis by (simp add: ref_count_def)
qed

lemma tail_ok_positive:
  assumes "h \<noteq> []" and "\<not> tail_low h"
  shows "filter (\<lambda>x. 0 < x) h \<noteq> []"
proof -
  from assms(1) have "last2 h \<noteq> []" by (simp add: last2_Nil)
  then obtain c where c: "c \<in> set (last2 h)" by (cases "last2 h") auto
  then have "\<not> c < 10" using assms(2) unfolding tail_low_def by blast
  then have pos: "0 < c" by linarith
  have "c \<in> set h" using set_last2_subset[of h] c by (rule subsetD)
  then have "\<exists>x \<in> set h. 0 < x" using pos by auto
  then show ?thesis by (simp add: filter_empty_conv)
qed

lemma ref_count_positive:
  assumes "h \<noteq> []" and "\<not> tail_low h" and "\<forall>c \<in> set h. 0 \<le> c"
  shows "0 < ref_count h"
proof -
  let ?P = "set (filter (\<lambda>x. 0 < x) h)"
  have "filter (\<lambda>x. 0 < x) h \<noteq> []" using tail_ok_positive[OF assms(1,2)] .
  then have "?P \<noteq> {}" unfolding set_empty .
  then have "Min ?P \<in> ?P" by (intro Min_in) simp_all
  then have "0 < Min ?P" by simp
  then show ?thesis using ref_count_code[OF assms(3)] by simp
qed

lemma label_step_Inr:
  "label_step bins var rec l acc = Inr acc' \<longleftrightarrow>
     (\<exists>h. np_histogram (selected rec l var) bins = Inr h \<and> h \<noteq> [] \<and> \<not> tail_low h \<and>
          acc' = (dict_set l (ref_count h) (fst acc), dict_set l (entry0 bins h) (snd acc)))"
proof (cases "np_histogram (selected rec l var) bins")
  case (Inl err)
  then show ?thesis by (simp add: label_step_def)
next
  case (Inr h)
  then have nonneg: "\<forall>c \<in> set h. 0 \<le> c" by (auto simp: np_histogram_Inr)
  show ?thesis
  proof (cases "h = []")
    case True
    then show ?thesis using Inr by (simp add: label_step_def py_min_def last2_Nil)
  next
    case False
    then have l2: "last2 h \<noteq> []" by (simp add: last2_Nil)
    show ?thesis
    proof (cases "tail_low h")
      case True
      then show ?thesis
        using Inr False l2 tail_min_low[OF False]
        by (simp add: label_step_def py_min_def min_list_Min)
    next
      case low: False
      have pos: "filter (\<lambda>x. 0 < x) h \<noteq> []" using tail_ok_positive[OF False low] .
      have ref: "min_list (filter (\<lambda>x. 0 < x) h) = ref_count h"
        using pos ref_count_code[OF nonneg] by (simp add: min_list_Min)
      show ?thesis
        using Inr False l2 low pos ref tail_min_low[OF False] min_list_Min[OF l2]
        by (auto simp: label_step_def py_min_def entry0_def)
    qed
  qed
qed

lemma label_step_Inl:
  "label_step bins var rec l acc = Inl err \<longleftrightarrow>
     (case np_histogram (selected rec l var) bins of
        Inl err' \<Rightarrow> err = ValueError
      | Inr h \<Rightarrow> (h = [] \<and> err = ValueError) \<or> (h \<noteq> [] \<and> tail_low h \<and> err = RuntimeError))"
proof (cases "np_histogram (selected rec l var) bins")
  case (Inl err')
  then have "err' = ValueError" by (simp add: np_histogram_Inl)
  then show ?thesis using Inl by (auto simp: label_step_def)
next
  case (Inr h)
  show ?thesis
  proof (cases "h = []")
    case True
    then show ?thesis using Inr by (auto simp: label_step_def py_min_def last2_Nil)
  next
    case False
    then have l2: "last2 h \<noteq> []" by (simp add: last2_Nil)
    show ?thesis
    proof (cases "tail_low h")
      case True
      then show ?thesis
        using Inr False l2 tail_min_low[OF False]
        by (auto simp: label_step_def py_min_def min_list_Min)
    next
      case low: False
      have pos: "filter (\<lambda>x. 0 < x) h \<noteq> []" using tail_ok_positive[OF False low] .
      show ?thesis
        using Inr False l2 low pos tail_min_low[OF False]
        by (simp add: label_step_def py_min_def min_list_Min)
    qed
  qed
qed

lemma fold_label_step_Inr:
  assumes "fold_err (label_step bins var rec) ls acc = Inr acc'"
  shows "(ls \<noteq> [] \<longrightarrow> bins \<noteq> [] \<and> sorted bins)
       \<and> (\<forall>l \<in> set ls. map real (bin_counts (selected rec l var) bins) \<noteq> []
                        \<and> \<not> tail_low (map real (bin_counts (selected rec l var) bins)))
       \<and> map_of (fst acc') =
           (\<lambda>l. if l \<in> set ls then Some (ref_count (map real (bin_counts (selected rec l var) bins)))
                else map_of (fst acc) l)
       \<and> map_of (snd acc') =
           (\<lambda>l. if l \<in> set ls then Some (entry0 bins (map real (bin_counts (selected rec l var) bins)))
                else map_of (snd acc) l)
       \<and> (distinct (map fst (fst acc)) \<longrightarrow> distinct (map fst (fst acc')))"
  using assms
proof (induction ls arbitrary: acc)
  case Nil
  then show ?case by simp
next
  case (Cons l ls)
  let ?H = "\<lambda>l. map real (bin_counts (selected rec l var) bins)"
  from Cons.prems obtain s where step: "label_step bins var rec l acc = Inr s"
    and rest: "fold_err (label_step bins var rec) ls s = Inr acc'"
    by (auto split: sum.splits)
  from step obtain h where h: "np_histogram (selected rec l var) bins = Inr h"
    "h \<noteq> []" "\<not> tail_low h"
    and s: "s = (dict_set l (ref_count h) (fst acc), dict_set l (entry0 bins h) (snd acc))"
    unfolding label_step_Inr by blast
  from h(1) have bins: "bins \<noteq> []" "sorted bins" and hH: "h = ?H l"
    by (simp_all add: np_histogram_Inr)
  note IH = Cons.IH[OF rest]
  have m1: "map_of (fst s) = (map_of (fst acc))(l \<mapsto> ref_count (?H l))"
    by (simp add: s map_of_dict_set hH)
  have m2: "map_of (snd s) = (map_of (snd acc))(l \<mapsto> entry0 bins (?H l))"
    by (simp add: s map_of_dict_set hH)
  have d: "distinct (map fst (fst acc)) \<Longrightarrow> distinct (map fst (fst s))"
    by (simp add: s distinct_dict_set)
  have c1: "\<forall>l' \<in> set (l # ls). ?H l' \<noteq> [] \<and> \<not> tail_low (?H l')"
    using IH h(2,3) hH by auto
  have c2: "map_of (fst acc') =
      (\<lambda>l'. if l' \<in> set (l # ls) then Some (ref_count (?H l')) else map_of (fst acc) l')"
    using IH m1 by (auto simp: fun_eq_iff)
  have c3: "map_of (snd acc') =
      (\<lambda>l'. if l' \<in> set (l # ls) then Some (entry0 bins (?H l')) else map_of (snd acc) l')"
    using IH m2 by (auto simp: fun_eq_iff)
  have c4: "distinct (map fst (fst acc)) \<longrightarrow> distinct (map fst (fst acc'))"
    using IH d by blast
  show ?case using bins c1 c2 c3 c4 by blast
qed

lemma class_step_Inr:
  "class_step m ce l res = Inr res' \<longleftrightarrow>
     (\<exists>nevt info. map_of ce l = Some nevt \<and> map_of res l = Some info \<and> class_wgt info = None
        \<and> res' = dict_set l (info\<lparr>class_wgt := Some (m / nevt)\<rparr>) res)"
  by (auto simp: class_step_def dict_get_def split: option.splits)

lemma fold_class_step_Inr:
  assumes "fold_err (class_step m ce) ls res = Inr res'"
  shows "distinct ls
       \<and> (\<forall>l \<in> set ls. \<exists>nevt info. map_of ce l = Some nevt \<and> map_of res l = Some info
              \<and> class_wgt info = None
              \<and> map_of res' l = Some (info\<lparr>class_wgt := Some (m / nevt)\<rparr>))
       \<and> (\<forall>l. l \<notin> set ls \<longrightarrow> map_of res' l = map_of res l)"
  using assms
proof (induction ls arbitrary: res)
  case Nil
  then show ?case by simp
next
  case (Cons l ls)
  from Cons.prems obtain r1 where step: "class_step m ce l res = Inr r1"
    and rest: "fold_err (class_step m ce) ls r1 = Inr res'"
    by (auto split: sum.splits)
  from step obtain nevt info where ni: "map_of ce l = Some nevt" "map_of res l = Some info"
    "class_wgt info = None" and r1: "r1 = dict_set l (info\<lparr>class_wgt := Some (m / nevt)\<rparr>) res"
    unfolding class_step_Inr by blast
  note IH = Cons.IH[OF rest]
  have m1: "map_of r1 = (map_of res)(l \<mapsto> info\<lparr>class_wgt := Some (m / nevt)\<rparr>)"
    by (simp add: r1 map_of_dict_set)
  have notin: "l \<notin> set ls"
  proof
    assume "l \<in> set ls"
    with IH obtain info' where "map_of r1 l = Some info'" "class_wgt info' = None" by blast
    then show False using m1 by auto
  qed
  have c1: "distinct (l # ls)" using IH notin by simp
  have here: "map_of res' l = Some (info\<lparr>class_wgt := Some (m / nevt)\<rparr>)"
    using IH notin m1 by simp
  have others: "\<forall>l' \<in> set ls. \<exists>nevt info. map_of ce l' = Some nevt \<and> map_of res l' = Some info
              \<and> class_wgt info = None
              \<and> map_of res' l' = Some (info\<lparr>class_wgt := Some (m / nevt)\<rparr>)"
  proof
    fix l' assume l': "l' \<in> set ls"
    then have "l' \<noteq> l" using notin by blast
    then have "map_of r1 l' = map_of res l'" by (simp add: m1)
    then show "\<exists>nevt info. map_of ce l' = Some nevt \<and> map_of res l' = Some info
              \<and> class_wgt info = None
              \<and> map_of res' l' = Some (info\<lparr>class_wgt := Some (m / nevt)\<rparr>)"
      using IH l' by force
  qed
  have c3: "\<forall>l'. l' \<notin> set (l # ls) \<longrightarrow> map_of res' l' = map_of res l'"
    using IH m1 by auto
  show ?case using c1 here others ni c3 by auto
qed

lemma raw_counts_nonneg: "\<forall>c \<in> set (raw_counts md rec l). 0 \<le> c"
  by (simp add: raw_counts_def)

text \<open>What a successful run of the calculator returns for each label.\<close>

lemma prepare_reweight_info_Inr:
  assumes ok: "prepare_reweight_info md rec = Inr result"
    and l: "l \<in> set (label_branches md)"
  shows "np_histogram (selected rec l (reweight_var md)) (reweight_bins md) = Inr (raw_counts md rec l)"
    and "raw_counts md rec l \<noteq> []"
    and "\<not> tail_low (raw_counts md rec l)"
    and "map_of result l =
           Some ((entry0 (reweight_bins md) (raw_counts md rec l))
                  \<lparr>class_wgt := Some (Min ((\<lambda>l'. ref_count (raw_counts md rec l')) ` set (label_branches md))
                                      / ref_count (raw_counts md rec l))\<rparr>)"
proof -
  let ?bins = "reweight_bins md" and ?var = "reweight_var md" and ?ls = "label_branches md"
  let ?H = "\<lambda>l. map real (bin_counts (selected rec l ?var) ?bins)"
  have H: "\<And>l. ?H l = raw_counts md rec l" by (simp add: raw_counts_def)
  from ok obtain ce res where first: "fold_err (label_step ?bins ?var rec) ?ls ([], []) = Inr (ce, res)"
    by (auto simp: prepare_reweight_info_def split: sum.splits)
  with ok obtain m where m: "py_min (map snd ce) = Inr m"
    and second: "fold_err (class_step m ce) ?ls res = Inr result"
    by (auto simp: prepare_reweight_info_def split: sum.splits)
  note F = fold_label_step_Inr[OF first]
  have ne: "?ls \<noteq> []" using l by auto
  from F ne have bins: "?bins \<noteq> []" "sorted ?bins" by blast+
  show "np_histogram (selected rec l ?var) ?bins = Inr (raw_counts md rec l)"
    using bins by (simp add: np_histogram_Inr raw_counts_def)
  from F l show "raw_counts md rec l \<noteq> []" unfolding raw_counts_def by blast
  from F l show "\<not> tail_low (raw_counts md rec l)" unfolding raw_counts_def by blast
  have mce: "map_of ce = (\<lambda>l. if l \<in> set ?ls then Some (ref_count (raw_counts md rec l)) else None)"
    using F by (simp add: raw_counts_def cong: if_cong)
  have mres: "map_of res = (\<lambda>l. if l \<in> set ?ls then Some (entry0 ?bins (raw_counts md rec l)) else None)"
    using F by (simp add: raw_counts_def cong: if_cong)
  have dist: "distinct (map fst ce)" using F by simp
  have "set ce = (\<lambda>l. (l, ref_count (raw_counts md rec l))) ` set ?ls"
  proof (rule set_eqI)
    fix p :: "string \<times> real"
    obtain k v where p: "p = (k, v)" by (cases p)
    have "(k, v) \<in> set ce \<longleftrightarrow> map_of ce k = Some v"
      using dist by simp
    also have "\<dots> \<longleftrightarrow> k \<in> set ?ls \<and> v = ref_count (raw_counts md rec k)"
      by (auto simp: mce)
    finally show "p \<in> set ce \<longleftrightarrow> p \<in> (\<lambda>l. (l, ref_count (raw_counts md rec l))) ` set ?ls"
      using p by auto
  qed
  then have vals: "set (map snd ce) = (\<lambda>l. ref_count (raw_counts md rec l)) ` set ?ls"
    by (simp add: image_image)
  from m have mval: "m = Min ((\<lambda>l. ref_count (raw_counts md rec l)) ` set ?ls)"
    unfolding py_min_Inr vals[symmetric] by simp
  from fold_class_step_Inr[OF second] l obtain nevt info where
    "map_of ce l = Some nevt" "map_of res l = Some info"
    "map_of result l = Some (info\<lparr>class_wgt := Some (m / nevt)\<rparr>)"
    by blast
  then show "map_of result l =
           Some ((entry0 ?bins (raw_counts md rec l))
                  \<lparr>class_wgt := Some (Min ((\<lambda>l'. ref_count (raw_counts md rec l')) ` set ?ls)
                                      / ref_count (raw_counts md rec l))\<rparr>)"
    using l by (simp add: mce mres mval)
qed

lemma class_step_not_RuntimeError: "class_step m ce l res \<noteq> Inl RuntimeError"
  by (auto simp: class_step_def dict_get_def split: option.splits)

lemma fold_class_step_not_RuntimeError: "fold_err (class_step m ce) ls res \<noteq> Inl RuntimeError"
proof (induction ls arbitrary: res)
  case Nil
  then show ?case by simp
next
  case (Cons l ls)
  then show ?case
    using class_step_not_RuntimeError[of m ce l res] by (auto split: sum.splits)
qed

lemma tail_low_Nil: "\<not> tail_low []"
  by (simp add: tail_low_def last2_def)

lemma fold_label_step_RuntimeError:
  "fold_err (label_step bins var rec) ls acc = Inl RuntimeError \<longleftrightarrow>
     (\<exists>l \<in> set ls. \<exists>h. np_histogram (selected rec l var) bins = Inr h \<and> tail_low h)"
proof (induction ls arbitrary: acc)
  case Nil
  then show ?case by simp
next
  case (Cons l ls)
  show ?case
  proof (cases "label_step bins var rec l acc")
    case (Inr s)
    then obtain h where "np_histogram (selected rec l var) bins = Inr h" "\<not> tail_low h"
      unfolding label_step_Inr by blast
    then show ?thesis using Inr Cons.IH[of s] by auto
  next
    case (Inl err)
    note step = Inl[unfolded label_step_Inl]
    show ?thesis
    proof (cases "np_histogram (selected rec l var) bins")
      case bad: (Inl err')
      then have "bins = [] \<or> \<not> sorted bins" by (simp add: np_histogram_Inl)
      then have none: "\<And>a h. np_histogram a bins \<noteq> Inr h" by (auto simp: np_histogram_Inr)
      have "err = ValueError" using step bad by simp
      then show ?thesis using Inl none by simp
    next
      case good: (Inr h)
      show ?thesis
      proof (cases "h = []")
        case True
        then have "length bins - 1 = 0"
          using good length_bin_counts[of "selected rec l var" bins]
          by (auto simp: np_histogram_Inr)
        then have "\<And>a h'. np_histogram a bins = Inr h' \<Longrightarrow> h' = []"
          using length_bin_counts[of _ bins] by (auto simp: np_histogram_Inr)
        then have none: "\<And>a h'. np_histogram a bins = Inr h' \<Longrightarrow> \<not> tail_low h'"
          using tail_low_Nil by blast
        have "err = ValueError" using step good True by simp
        then show ?thesis using Inl none by auto
      next
        case False
        then have "tail_low h" "err = RuntimeError" using step good by simp_all
        then show ?thesis using Inl good by auto
      qed
    qed
  qed
qed

text \<open>
  Claim C3. The calculator raises its \<^verbatim>\<open>RuntimeError\<close> (the specification's
  \<open>InsufficientDataError\<close>) exactly when some label has a raw histogram one of whose last two
  bins counts fewer than ten events; the raw histogram of a label exists when
  \<^verbatim>\<open>np.histogram\<close> accepts the configured edges.
\<close>

theorem prepare_reweight_info_raises_iff:
  "prepare_reweight_info md rec = Inl RuntimeError \<longleftrightarrow>
     (\<exists>l \<in> set (label_branches md). \<exists>h.
         np_histogram (selected rec l (reweight_var md)) (reweight_bins md) = Inr h \<and> tail_low h)"
proof -
  let ?first = "fold_err (label_step (reweight_bins md) (reweight_var md) rec) (label_branches md) ([], [])"
  have "prepare_reweight_info md rec = Inl RuntimeError \<longleftrightarrow> ?first = Inl RuntimeError"
  proof (cases ?first)
    case (Inl err)
    then show ?thesis by (simp add: prepare_reweight_info_def)
  next
    case (Inr acc)
    obtain ce res where acc: "acc = (ce, res)" by (cases acc)
    have "prepare_reweight_info md rec \<noteq> Inl RuntimeError"
      using Inr acc fold_class_step_not_RuntimeError
      by (auto simp: prepare_reweight_info_def py_min_def split: sum.splits)
    then show ?thesis using Inr by simp
  qed
  then show ?thesis by (simp add: fold_label_step_RuntimeError)
qed

lemma mask_select_append:
  "length xs = length ps \<Longrightarrow> mask_select (xs @ ys) (ps @ qs) = mask_select xs ps @ mask_select ys qs"
  by (simp add: mask_select_def)

lemma mask_select_replicate:
  "mask_select (replicate n x) (replicate n b) = (if b then replicate n x else [])"
  by (simp add: mask_select_def zip_replicate filter_replicate)

lemma selected_append: "selected (r1 @ r2) l v = selected r1 l v @ selected r2 l v"
  by (simp add: selected_def mask_select_append)

lemma selected_replicate:
  "selected (replicate n r) l v = (if r l = 1 then replicate n (r v) else [])"
  by (simp add: selected_def mask_select_replicate)

lemma selected_Nil: "selected [] l v = []"
  by (simp add: selected_def mask_select_def)

lemma selected_Cons:
  "selected (r # rs) l v = (if r l = 1 then r v # selected rs l v else selected rs l v)"
  by (simp add: selected_def mask_select_def)

lemma length_filter_replicate: "length (filter P (replicate n x)) = (if P x then n else 0)"
  by (simp add: filter_replicate)

text \<open>Evaluation of the sample arrays.\<close>

lemmas sample_simps = sample_rec_def sample_row_def selected_append selected_replicate selected_Nil
  selected_Cons length_filter_replicate

theorem prepare_reweight_info_raises_iff_witness:
  "raw_counts md0 (sample_rec ''label_A'' [(100, 0.5), (100, 1.5), (5, 2.5), (3, 3.5)]) ''label_A''
     = [100, 100, 5, 3]
   \<and> prepare_reweight_info md0 (sample_rec ''label_A'' [(100, 0.5), (100, 1.5), (5, 2.5), (3, 3.5)])
     = Inl RuntimeError"
proof -
  let ?rec = "sample_rec ''label_A'' [(100, 0.5), (100, 1.5), (5, 2.5), (3, 3.5)]"
  have counts: "raw_counts md0 ?rec ''label_A'' = [100, 100, 5, 3]"
    by (simp add: raw_counts_def md0_def sample_simps)
  have h: "np_histogram (selected ?rec ''label_A'' (reweight_var md0)) (reweight_bins md0)
             = Inr [100, 100, 5, 3]"
    using counts by (simp add: np_histogram_def raw_counts_def md0_def)
  have low: "tail_low [100, 100, 5, 3]"
    by (simp add: tail_low_def last2_def)
  have "\<exists>l \<in> set (label_branches md0). \<exists>h.
           np_histogram (selected ?rec l (reweight_var md0)) (reweight_bins md0) = Inr h \<and> tail_low h"
    using h low by (simp add: md0_def)
  then have "prepare_reweight_info md0 ?rec = Inl RuntimeError"
    by (rule prepare_reweight_info_raises_iff[THEN iffD2])
  then show ?thesis using counts by simp
qed

lemma sorted_hd_Min: "sorted xs \<Longrightarrow> xs \<noteq> [] \<Longrightarrow> hd xs = Min (set xs)"
  by (cases xs) (auto intro!: Min_eqI[symmetric])

lemma sorted_last_Max: "sorted xs \<Longrightarrow> xs \<noteq> [] \<Longrightarrow> last xs = Max (set xs)"
proof (induction xs)
  case Nil
  then show ?case by simp
next
  case (Cons x xs)
  show ?case
  proof (cases "xs = []")
    case True
    then show ?thesis by simp
  next
    case False
    then have IH: "last xs = Max (set xs)" using Cons by simp
    have hd_in: "hd xs \<in> set xs" using False by simp
    then have "x \<le> hd xs" using Cons.prems by auto
    also have "hd xs \<le> Max (set xs)" using hd_in by simp
    finally have "x \<le> Max (set xs)" .
    then show ?thesis using IH False by (simp add: max_def)
  qed
qed

text \<open>
  Claim C1, as amended. When the calculator returns, every label has passed the tail-bin
  check and its weight array is \<open>ref / count\<close> in every bin with a non-zero count and zero in
  every other bin, \<open>ref\<close> being the least non-zero count of the label's raw histogram.
\<close>

theorem reweight_bin_weights:
  assumes "prepare_reweight_info md rec = Inr result"
    and "l \<in> set (label_branches md)"
  shows "\<exists>info. map_of result l = Some info
           \<and> \<not> tail_low (raw_counts md rec l)
           \<and> raw_hist info = raw_counts md rec l
           \<and> hist info = map (\<lambda>c. if c = 0 then 0 else ref_count (raw_counts md rec l) / c)
                              (raw_counts md rec l)"
  using prepare_reweight_info_Inr(3,4)[OF assms]
  by (simp add: entry0_def adjust_map)

text \<open>
  Claim C2. When the calculator returns, the class weight of every label is the least
  reference count of all labels divided by the label's own reference count; it is positive
  and at most one, it is one for a label whose reference count is the least, and some label
  has class weight one.
\<close>

theorem class_weights:
  assumes "prepare_reweight_info md rec = Inr result"
    and "l \<in> set (label_branches md)"
  shows "\<exists>info. map_of result l = Some info
           \<and> class_wgt info =
               Some (Min ((\<lambda>l'. ref_count (raw_counts md rec l')) ` set (label_branches md))
                     / ref_count (raw_counts md rec l))
           \<and> (\<forall>w. class_wgt info = Some w \<longrightarrow> 0 < w \<and> w \<le> 1)
           \<and> (ref_count (raw_counts md rec l)
                 = Min ((\<lambda>l'. ref_count (raw_counts md rec l')) ` set (label_branches md))
               \<longrightarrow> class_wgt info = Some 1)
           \<and> (\<exists>l' \<in> set (label_branches md). \<exists>info'.
                 map_of result l' = Some info' \<and> class_wgt info' = Some 1)"
proof -
  let ?ref = "\<lambda>l'. ref_count (raw_counts md rec l')"
  let ?R = "?ref ` set (label_branches md)"
  let ?g = "Min ?R"
  have fin: "finite ?R" and ne: "?R \<noteq> {}" using assms(2) by auto
  have pos: "\<And>l'. l' \<in> set (label_branches md) \<Longrightarrow> 0 < ?ref l'"
    using prepare_reweight_info_Inr(2,3)[OF assms(1)] raw_counts_nonneg ref_count_positive
    by blast
  have gin: "?g \<in> ?R" using Min_in[OF fin ne] .
  then obtain lm where lm: "lm \<in> set (label_branches md)" "?ref lm = ?g" by auto
  have gpos: "0 < ?g" using lm pos by metis
  have gle: "?g \<le> ?ref l" using assms(2) fin by (simp add: Min_le)
  have rpos: "0 < ?ref l" using pos assms(2) by blast
  have w1: "0 < ?g / ?ref l" using gpos rpos by simp
  have w2: "?g / ?ref l \<le> 1" using gle rpos by simp
  have here: "map_of result l = Some ((entry0 (reweight_bins md) (raw_counts md rec l))
                  \<lparr>class_wgt := Some (?g / ?ref l)\<rparr>)"
    using prepare_reweight_info_Inr(4)[OF assms] .
  have there: "map_of result lm = Some ((entry0 (reweight_bins md) (raw_counts md rec lm))
                  \<lparr>class_wgt := Some 1\<rparr>)"
    using prepare_reweight_info_Inr(4)[OF assms(1) lm(1)] lm(2) gpos by simp
  have some1: "\<exists>l' \<in> set (label_branches md). \<exists>info'.
                 map_of result l' = Some info' \<and> class_wgt info' = Some 1"
    using lm(1) there by (intro bexI[of _ lm]) simp_all
  show ?thesis using here w1 w2 rpos some1 by simp
qed

text \<open>
  Claim C4, as amended. The histogram does not clip: a value outside the closed interval
  from the least to the greatest edge is counted in no bin. When the calculator returns,
  the counts of a label's raw histogram sum to the number of the label's selected rows whose
  value lies in that interval.
\<close>

theorem raw_hist_counts_rows_in_range:
  assumes "prepare_reweight_info md rec = Inr result"
    and "l \<in> set (label_branches md)"
  shows "\<exists>info. map_of result l = Some info
           \<and> sum_list (raw_hist info) =
               real (length (filter (\<lambda>x. Min (set (reweight_bins md)) \<le> x
                                         \<and> x \<le> Max (set (reweight_bins md)))
                               (selected rec l (reweight_var md))))"
proof -
  let ?bins = "reweight_bins md"
  let ?a = "selected rec l (reweight_var md)"
  from prepare_reweight_info_Inr(1)[OF assms] have bins: "?bins \<noteq> []" "sorted ?bins"
    by (simp_all add: np_histogram_Inr)
  from prepare_reweight_info_Inr(2)[OF assms] have "bin_counts ?a ?bins \<noteq> []"
    by (simp add: raw_counts_def)
  then have "length ?bins - 1 \<noteq> 0" using length_bin_counts[of ?a ?bins] by auto
  then have len: "2 \<le> length ?bins" by simp
  have "sum_list (raw_counts md rec l) = real (sum_list (bin_counts ?a ?bins))"
    by (simp add: raw_counts_def sum_list_of_nat[symmetric] comp_def)
  also have "\<dots> = real (length (filter (\<lambda>x. hd ?bins \<le> x \<and> x \<le> last ?bins) ?a))"
    using sum_bin_counts[OF bins(2) len] by simp
  finally have "sum_list (raw_counts md rec l) =
      real (length (filter (\<lambda>x. Min (set ?bins) \<le> x \<and> x \<le> Max (set ?bins)) ?a))"
    using sorted_hd_Min[OF bins(2,1)] sorted_last_Max[OF bins(2,1)] by simp
  then show ?thesis
    using prepare_reweight_info_Inr(4)[OF assms] by (simp add: entry0_def)
qed

text \<open>Evaluation of the calculator on the sample arrays.\<close>

lemmas prepare_simps = prepare_reweight_info_def label_step_def np_histogram_def py_min_def
  last2_def class_step_def dict_get_def adjust_map md0_def sample_simps

theorem reweight_bin_weights_counterexample:
  "raw_counts md0 (sample_rec ''label_A'' [(50, 0.5), (100, 1.5), (20, 3.5)]) ''label_A''
     = [50, 100, 0, 20]
   \<and> prepare_reweight_info md0 (sample_rec ''label_A'' [(50, 0.5), (100, 1.5), (20, 3.5)])
     = Inl RuntimeError"
  by (simp add: raw_counts_def prepare_simps)

theorem reweight_bin_weights_witness:
  "raw_counts md0 (sample_rec ''label_A'' [(50, 0.5), (100, 2.5), (20, 3.5)]) ''label_A''
     = [50, 0, 100, 20]
   \<and> map (\<lambda>c. if c = 0 then 0
              else ref_count (raw_counts md0
                     (sample_rec ''label_A'' [(50, 0.5), (100, 2.5), (20, 3.5)]) ''label_A'') / c)
         (raw_counts md0 (sample_rec ''label_A'' [(50, 0.5), (100, 2.5), (20, 3.5)]) ''label_A'')
     = [2 / 5, 0, 1 / 5, 1]"
proof -
  let ?rec = "sample_rec ''label_A'' [(50, 0.5), (100, 2.5), (20, 3.5)]"
  have run: "prepare_reweight_info md0 ?rec
      = Inr [(''label_A'', \<lparr>bin_edges = [0, 1, 2, 3, 4], hist = [2 / 5, 0, 1 / 5, 1],
                            raw_hist = [50, 0, 100, 20], class_wgt = Some 1\<rparr>)]"
    by (simp add: prepare_simps)
  have l: "''label_A'' \<in> set (label_branches md0)" by (simp add: md0_def)
  from reweight_bin_weights[OF run l] show ?thesis by auto
qed

theorem class_weights_witness:
  "Min ((\<lambda>l'. ref_count (raw_counts
            (md0\<lparr>label_branches := [''label_A'', ''label_B''], reweight_bins := [0, 1, 2]\<rparr>)
            (sample_rec ''label_A'' [(20, 0.5), (20, 1.5)] @ sample_rec ''label_B'' [(50, 0.5), (50, 1.5)]) l'))
          ` set [''label_A'', ''label_B''])
     / ref_count (raw_counts
            (md0\<lparr>label_branches := [''label_A'', ''label_B''], reweight_bins := [0, 1, 2]\<rparr>)
            (sample_rec ''label_A'' [(20, 0.5), (20, 1.5)] @ sample_rec ''label_B'' [(50, 0.5), (50, 1.5)])
            ''label_B'')
     = 2 / 5
   \<and> prepare_reweight_info
        (md0\<lparr>label_branches := [''label_A'', ''label_B''], reweight_bins := [0, 1, 2]\<rparr>)
        (sample_rec ''label_A'' [(20, 0.5), (20, 1.5)] @ sample_rec ''label_B'' [(50, 0.5), (50, 1.5)])
     = Inr [(''label_A'', \<lparr>bin_edges = [0, 1, 2], hist = [1, 1],
                            raw_hist = [20, 20], class_wgt = Some 1\<rparr>),
            (''label_B'', \<lparr>bin_edges = [0, 1, 2], hist = [1, 1],
                            raw_hist = [50, 50], class_wgt = Some (2 / 5)\<rparr>)]"
proof -
  let ?md = "md0\<lparr>label_branches := [''label_A'', ''label_B''], reweight_bins := [0, 1, 2]\<rparr>"
  let ?rec = "sample_rec ''label_A'' [(20, 0.5), (20, 1.5)] @ sample_rec ''label_B'' [(50, 0.5), (50, 1.5)]"
  have run: "prepare_reweight_info ?md ?rec
      = Inr [(''label_A'', \<lparr>bin_edges = [0, 1, 2], hist = [1, 1],
                            raw_hist = [20, 20], class_wgt = Some 1\<rparr>),
             (''label_B'', \<lparr>bin_edges = [0, 1, 2], hist = [1, 1],
                            raw_hist = [50, 50], class_wgt = Some (2 / 5)\<rparr>)]"
    by (simp add: prepare_simps)
  have l: "''label_B'' \<in> set (label_branches ?md)" by simp
  have labels: "label_branches ?md = [''label_A'', ''label_B'']" by simp
  from class_weights[OF run l] show ?thesis unfolding labels using run by auto
qed

theorem raw_hist_counts_rows_in_range_counterexample:
  "prepare_reweight_info md0 (sample_rec ''label_A'' [(10, 2.5), (10, 3.5), (1, 7)])
     = Inr [(''label_A'', \<lparr>bin_edges = [0, 1, 2, 3, 4], hist = [0, 0, 1, 1],
                            raw_hist = [0, 0, 10, 10], class_wgt = Some 1\<rparr>)]
   \<and> length (selected (sample_rec ''label_A'' [(10, 2.5), (10, 3.5), (1, 7)]) ''label_A'' ''fj_pt'') = 21
   \<and> sum_list [0, 0, 10, 10 :: real] \<noteq> 21"
  by (simp add: prepare_simps)

theorem raw_hist_counts_rows_in_range_witness:
  "length (filter (\<lambda>x. Min (set (reweight_bins md0)) \<le> x \<and> x \<le> Max (set (reweight_bins md0)))
            (selected (sample_rec ''label_A'' [(10, 2.5), (10, 3.5), (1, 7)]) ''label_A''
               (reweight_var md0))) = 20
   \<and> length (selected (sample_rec ''label_A'' [(10, 2.5), (10, 3.5), (1, 7)]) ''label_A''
               (reweight_var md0)) = 21"
proof -
  let ?rec = "sample_rec ''label_A'' [(10, 2.5), (10, 3.5), (1, 7)]"
  have run: "prepare_reweight_info md0 ?rec
      = Inr [(''label_A'', \<lparr>bin_edges = [0, 1, 2, 3, 4], hist = [0, 0, 1, 1],
                            raw_hist = [0, 0, 10, 10], class_wgt = Some 1\<rparr>)]"
    by (simp add: prepare_simps)
  have l: "''label_A'' \<in> set (label_branches md0)" by (simp add: md0_def)
  have n: "length (selected ?rec ''label_A'' (reweight_var md0)) = 21"
    by (simp add: prepare_simps)
  from raw_hist_counts_rows_in_range[OF run l] have
    "real (length (filter (\<lambda>x. Min (set (reweight_bins md0)) \<le> x \<and> x \<le> Max (set (reweight_bins md0)))
            (selected ?rec ''label_A'' (reweight_var md0)))) = 20"
    by simp
  then show ?thesis using n by linarith
qed

subsection \<open>Errors of the reweighting step\<close>

lemma make_weights_cases:
  "(\<exists>err. make_weights e md = (Some err, md))
   \<or> (\<exists>info. make_weights e md = (None, md\<lparr>reweight_info := Some info\<rparr>))"
  by (auto simp: make_weights_def split: sum.splits)

lemma make_varlist_reweight_info:
  "reweight_info (snd (make_varlist e md)) = reweight_info md"
  by (auto simp: make_varlist_def Let_def split: option.splits list.splits)

lemma updateFilelist_reweight_info:
  "reweight_info (updateFilelist e ts md) = reweight_info md"
  by (simp add: updateFilelist_def Let_def)

text \<open>
  Claim C10. When the reweighting step raises, for too few events in the tail bins of some
  label or for any other reason, the object is the one the step was given:
  \<^verbatim>\<open>reweight_info\<close> has not been assigned. \<^verbatim>\<open>produceMetadata\<close> then stops with that
  exception: no file is written, and the reweighting state of the object is the one it
  had before the call.
\<close>

theorem make_weights_error_assigns_nothing:
  assumes "fst (make_weights e md) = Some err"
  shows "snd (make_weights e md) = md
       \<and> (\<forall>w filepath. make_varlist e (updateFilelist e False (obj w)) = (None, md) \<longrightarrow>
             produceMetadata e filepath w = (Some err, w\<lparr>obj := md\<rparr>)
           \<and> files (snd (produceMetadata e filepath w)) = files w
           \<and> reweight_info (obj (snd (produceMetadata e filepath w))) = reweight_info (obj w))"
proof -
  from assms make_weights_cases[of e md] have mw: "make_weights e md = (Some err, md)"
    by auto
  have "\<And>w filepath. make_varlist e (updateFilelist e False (obj w)) = (None, md) \<Longrightarrow>
          produceMetadata e filepath w = (Some err, w\<lparr>obj := md\<rparr>)"
    using mw by (simp add: produceMetadata_def Let_def)
  moreover have "\<And>w. make_varlist e (updateFilelist e False (obj w)) = (None, md) \<Longrightarrow>
          reweight_info md = reweight_info (obj w)"
  proof -
    fix w assume a: "make_varlist e (updateFilelist e False (obj w)) = (None, md)"
    have "reweight_info (snd (make_varlist e (updateFilelist e False (obj w)))) = reweight_info (obj w)"
      by (simp add: make_varlist_reweight_info updateFilelist_reweight_info)
    then show "reweight_info md = reweight_info (obj w)" using a by simp
  qed
  ultimately show ?thesis using mw by auto
qed

lemma sample_updateFilelist: "updateFilelist env1 False md0 = md1"
  by (simp add: updateFilelist_def env1_def env0_def md0_def md1_def visit_dir_def visit_file_def
      endswith_def path_join_def startswith_def Let_def)

lemma sample_make_varlist: "make_varlist env1 md1 = (None, md2)"
  by (simp add: make_varlist_def env1_def env0_def md0_def md1_def md2_def select_branch_def
      remove_tolerant_def list_remove_def startswith_def Let_def)

lemma sample_make_weights: "fst (make_weights env1 md2) = Some RuntimeError"
  by (simp add: make_weights_def sample_fraction_def read_sample_def env1_def env0_def
      md1_def md2_def prepare_simps Let_def)

theorem make_weights_error_assigns_nothing_witness:
  "produceMetadata env1 ''out.json'' \<lparr>obj = md0, files = Map.empty\<rparr>
     = (Some RuntimeError, \<lparr>obj = md2, files = Map.empty\<rparr>)
   \<and> reweight_info md2 = None"
proof -
  have vl: "make_varlist env1 (updateFilelist env1 False (obj \<lparr>obj = md0, files = Map.empty\<rparr>))
              = (None, md2)"
    by (simp add: sample_updateFilelist sample_make_varlist)
  from make_weights_error_assigns_nothing[OF sample_make_weights] vl
  have "produceMetadata env1 ''out.json'' \<lparr>obj = md0, files = Map.empty\<rparr>
          = (Some RuntimeError, \<lparr>obj = md0, files = Map.empty\<rparr>\<lparr>obj := md2\<rparr>)"
    by blast
  then show ?thesis by (simp add: md2_def md1_def md0_def)
qed

subsection \<open>Statistics calculator\<close>

lemma fold_min_replicate: "fold min (replicate k (0::real)) 0 = 0"
  by (induction k) (simp_all del: fold_replicate)

lemma fold_max_replicate: "fold max (replicate k (0::real)) 0 = 0"
  by (induction k) (simp_all del: fold_replicate)

lemma np_min_zeros: "0 < n \<Longrightarrow> np_min (replicate n 0) = 0"
  by (cases n) (simp_all add: np_min_def fold_min_replicate del: fold_replicate)

lemma np_max_zeros: "0 < n \<Longrightarrow> np_max (replicate n 0) = 0"
  by (cases n) (simp_all add: np_max_def fold_max_replicate del: fold_replicate)

lemma np_mean_zeros: "np_mean (replicate n 0) = 0"
  by (simp add: np_mean_def sum_list_replicate)

lemma np_std_zeros: "np_std (replicate n 0) = 0"
  by (simp add: np_std_def np_mean_zeros)

lemma np_percentile_zeros:
  assumes "0 < n" and "0 \<le> q" and "q \<le> 100"
  shows "np_percentile (replicate n 0) q = 0"
proof -
  let ?idx = "q / 100 * real (n - 1)"
  have "?idx \<le> 1 * real (n - 1)"
    using assms(2,3) by (intro mult_right_mono) simp_all
  then have "\<lfloor>?idx\<rfloor> \<le> int (n - 1)" by (simp add: floor_le_iff)
  then have lo: "nat \<lfloor>?idx\<rfloor> < n" using assms(1) by linarith
  have hi: "min (nat \<lfloor>?idx\<rfloor> + 1) (n - 1) < n" using assms(1) by simp
  have "sort (replicate n (0::real)) = replicate n 0"
    by (simp add: sorted_sort_id sorted_replicate)
  then show ?thesis
    using lo hi by (simp add: np_percentile_def Let_def)
qed

lemma all_NaN_zeros:
  assumes "\<forall>row \<in> set rows. \<forall>x \<in> set row. x = NaN"
  shows "map (nan_to_num dt) (concat rows) = replicate (length (concat rows)) 0"
proof -
  have "\<forall>x \<in> set (concat rows). nan_to_num dt x = 0"
  proof
    fix x assume "x \<in> set (concat rows)"
    then obtain row where "row \<in> set rows" "x \<in> set row" by auto
    then have "x = NaN" using assms by blast
    then show "nan_to_num dt x = 0" by simp
  qed
  then show ?thesis by (simp add: map_replicate_const[symmetric] cong: map_cong)
qed

lemma finfo_max_positive: "0 < finfo_max dt"
  by (cases dt) (simp_all add: finfo_max_def)

lemma scalar_stats_Inr:
  "scalar_stats sz a = Inr info \<longleftrightarrow>
     a \<noteq> [] \<and> info = \<lparr>size = sz, median = np_percentile a 50, upper = np_percentile a 84,
                         minimum = np_min a, maximum = np_max a, mean = np_mean a, std = np_std a\<rparr>"
  by (auto simp: scalar_stats_def)

lemma ragged_size_Inr:
  "rows \<noteq> [] \<Longrightarrow> \<exists>sz. ragged_size var_size rows = Inr sz"
  by (simp add: ragged_size_def split: option.splits)

lemma branch_info_size:
  "branch_info var_size a = Inr info \<Longrightarrow> size info = expected_size var_size a"
  by (cases a)
     (auto simp: branch_info_def expected_size_def ragged_size_def scalar_stats_Inr
           split: sum.splits option.splits if_splits)

lemma branch_info_Ragged:
  "branch_info var_size (Ragged dt rows) = Inr info \<Longrightarrow>
     \<exists>sz. scalar_stats (Some sz) (map (nan_to_num dt) (concat rows)) = Inr info"
  by (auto simp: branch_info_def split: sum.splits if_splits)

text \<open>
  Claim C5, as amended. For an object-typed variable the scalar statistics are those of the
  flattened values after \<^verbatim>\<open>np.nan_to_num\<close>, which replaces NaN by zero and an infinity by
  the finite value of largest magnitude of the array's type, with its sign. A variable
  whose sampled values are all NaN, and that has at least one value, gets a statistics
  record whose median, upper, min, max, mean and std are zero; nothing is raised.
\<close>

theorem ragged_statistics:
  "(\<forall>info. branch_info var_size (Ragged dt rows) = Inr info \<longrightarrow>
        median info = np_percentile (map (nan_to_num dt) (concat rows)) 50
      \<and> upper info = np_percentile (map (nan_to_num dt) (concat rows)) 84
      \<and> minimum info = np_min (map (nan_to_num dt) (concat rows))
      \<and> maximum info = np_max (map (nan_to_num dt) (concat rows))
      \<and> mean info = np_mean (map (nan_to_num dt) (concat rows))
      \<and> std info = np_std (map (nan_to_num dt) (concat rows)))
   \<and> nan_to_num dt NaN = 0 \<and> nan_to_num dt PosInf = finfo_max dt
   \<and> nan_to_num dt NegInf = - finfo_max dt \<and> 0 < finfo_max dt
   \<and> ((\<forall>row \<in> set rows. \<forall>x \<in> set row. x = NaN) \<and> concat rows \<noteq> [] \<longrightarrow>
        (\<exists>sz. branch_info var_size (Ragged dt rows)
                = Inr \<lparr>size = Some sz, median = 0, upper = 0, minimum = 0, maximum = 0,
                       mean = 0, std = 0\<rparr>))"
proof -
  have general: "\<forall>info. branch_info var_size (Ragged dt rows) = Inr info \<longrightarrow>
        median info = np_percentile (map (nan_to_num dt) (concat rows)) 50
      \<and> upper info = np_percentile (map (nan_to_num dt) (concat rows)) 84
      \<and> minimum info = np_min (map (nan_to_num dt) (concat rows))
      \<and> maximum info = np_max (map (nan_to_num dt) (concat rows))
      \<and> mean info = np_mean (map (nan_to_num dt) (concat rows))
      \<and> std info = np_std (map (nan_to_num dt) (concat rows))"
    using branch_info_Ragged[of var_size dt rows] by (auto simp: scalar_stats_Inr)
  have zeros: "\<exists>sz. branch_info var_size (Ragged dt rows)
                = Inr \<lparr>size = Some sz, median = 0, upper = 0, minimum = 0, maximum = 0,
                       mean = 0, std = 0\<rparr>"
    if nan: "\<forall>row \<in> set rows. \<forall>x \<in> set row. x = NaN" and ne: "concat rows \<noteq> []"
  proof -
    let ?n = "length (concat rows)"
    have n: "0 < ?n" using ne by simp
    have rows: "rows \<noteq> []" using ne by auto
    then obtain sz where sz: "ragged_size var_size rows = Inr sz"
      using ragged_size_Inr by blast
    have vals: "map (nan_to_num dt) (concat rows) = replicate ?n 0"
      using all_NaN_zeros[OF nan] .
    have "replicate ?n (0::real) \<noteq> []" using n by simp
    then have "branch_info var_size (Ragged dt rows)
        = Inr \<lparr>size = Some sz, median = 0, upper = 0, minimum = 0, maximum = 0,
               mean = 0, std = 0\<rparr>"
      using n rows sz
      by (simp add: branch_info_def vals scalar_stats_def np_percentile_zeros np_min_zeros
          np_max_zeros np_mean_zeros np_std_zeros del: replicate_empty)
    then show ?thesis by blast
  qed
  show ?thesis using general zeros finfo_max_positive[of dt] by simp
qed

theorem ragged_statistics_counterexample:
  "branch_info None (Ragged Float32 [[PosInf]])
     = Inr \<lparr>size = Some 1, median = finfo_max Float32, upper = finfo_max Float32,
            minimum = finfo_max Float32, maximum = finfo_max Float32,
            mean = finfo_max Float32, std = 0\<rparr>
   \<and> finfo_max Float32 \<noteq> 0"
proof -
  have "finfo_max Float32 \<noteq> 0" using finfo_max_positive[of Float32] by simp
  then show ?thesis
    by (simp add: branch_info_def ragged_size_def scalar_stats_def np_percentile_def np_min_def
        np_max_def np_mean_def np_std_def py_round_def)
qed

theorem ragged_statistics_witness:
  "\<exists>sz. branch_info None (Ragged Float64 [[NaN, NaN], [NaN]])
          = Inr \<lparr>size = Some sz, median = 0, upper = 0, minimum = 0, maximum = 0,
                 mean = 0, std = 0\<rparr>"
proof -
  have a: "\<forall>row \<in> set [[NaN, NaN], [NaN]]. \<forall>x \<in> set row. x = NaN" by simp
  have b: "concat [[NaN, NaN], [NaN]] \<noteq> []" by simp
  from ragged_statistics[of None Float64 "[[NaN, NaN], [NaN]]"] a b show ?thesis by blast
qed

lemma infos_loop_None:
  assumes "infos_loop e md sample vars infos = (None, infos')"
  shows "(\<forall>var \<in> set vars. \<exists>info. var_step e md sample var = Inr info
                                    \<and> map_of infos' var = Some info)
       \<and> (\<forall>v. v \<notin> set vars \<longrightarrow> map_of infos' v = map_of infos v)"
  using assms
proof (induction vars arbitrary: infos)
  case Nil
  then show ?case by simp
next
  case (Cons var vars)
  from Cons.prems obtain info where step: "var_step e md sample var = Inr info"
    and rest: "infos_loop e md sample vars (dict_set var info infos) = (None, infos')"
    by (auto split: sum.splits)
  note IH = Cons.IH[OF rest]
  have here: "map_of infos' var = Some info"
  proof (cases "var \<in> set vars")
    case True
    then show ?thesis using IH step by auto
  next
    case False
    then show ?thesis using IH by (simp add: map_of_dict_set)
  qed
  show ?case using IH step here by (auto simp: map_of_dict_set)
qed

lemma var_step_Inr:
  assumes "var_step e md sample var = Inr info"
  shows "\<exists>sizes var_size fs ns fr a.
           sample = (Some fs, Some ns, fr)
         \<and> var_sizes md = Some sizes \<and> map_of sizes var = Some var_size
         \<and> read_column e md fs ns fr var = Inr a
         \<and> branch_info var_size a = Inr info"
  using assms
  by (auto simp: var_step_def dict_get_def split: prod.splits option.splits sum.splits)

text \<open>
  Claim C6. When the statistics calculator returns, the size stored for a selected
  variable is: nothing (\<^verbatim>\<open>None\<close>) when the variable was read as a flat column; for an
  object-typed column the configured size when one is provided, that is when it is neither
  \<^verbatim>\<open>None\<close> nor zero, and otherwise the rounded 95th percentile of the lengths of the rows
  as they were read, before they are flattened.
\<close>

theorem stored_size:
  assumes "fst (make_infos e md) = None"
    and "var_branches md = Some vars"
    and "var \<in> set vars"
  shows "\<exists>infos info sizes var_size fs ns fr a.
           branches_info (snd (make_infos e md)) = Some infos
         \<and> map_of infos var = Some info
         \<and> var_sizes md = Some sizes \<and> map_of sizes var = Some var_size
         \<and> choose_files e md = Inr (Some fs, Some ns, fr)
         \<and> read_column e md fs ns fr var = Inr a
         \<and> size info = expected_size var_size a"
proof -
  from assms(1,2) obtain sample infos where
    sample: "choose_files e md = Inr sample"
    and loop: "infos_loop e md sample vars [] = (None, infos)"
    and res: "snd (make_infos e md) = md\<lparr>branches_info := Some infos\<rparr>"
    by (auto simp: make_infos_def split: sum.splits prod.splits)
  from infos_loop_None[OF loop] assms(3) obtain info where
    step: "var_step e md sample var = Inr info" and stored: "map_of infos var = Some info"
    by blast
  from var_step_Inr[OF step] obtain sizes var_size fs ns fr a where
    parts: "sample = (Some fs, Some ns, fr)" "var_sizes md = Some sizes"
      "map_of sizes var = Some var_size" "read_column e md fs ns fr var = Inr a"
      "branch_info var_size a = Inr info"
    by blast
  have "size info = expected_size var_size a" using branch_info_size[OF parts(5)] .
  then show ?thesis using res stored parts sample by auto
qed

text \<open>Evaluation of the statistics calculator on the sample.\<close>

lemma sample_choose_files:
  "choose_files env2 md3 = Inr (Some [''data/a.root''], Some [100], 1)"
  by (simp add: choose_files_def md3_def md1_def md0_def)

lemma sample_read_column:
  "read_column env2 md3 [''data/a.root''] [100] 1 var
     = Inr (if var = ''fj_pt'' then Flat [250, 300, 450] else Ragged Float32 rows10)"
  by (simp add: read_column_def np_concatenate_def env2_def env0_def)

lemma sample_expected_size:
  "expected_size None (Ragged Float32 rows10) = Some 7"
  "expected_size (Some 100) (Ragged Float32 rows10) = Some 100"
  "expected_size None (Flat [250, 300, 450]) = None"
  by (simp_all add: expected_size_def provided_def rows10_def np_percentile_def py_round_def)

lemma sample_make_infos: "fst (make_infos env2 md3) = None"
  by (simp add: make_infos_def choose_files_def md3_def md1_def md0_def var_step_def dict_get_def
      read_column_def np_concatenate_def env2_def env0_def branch_info_def ragged_size_def
      provided_def scalar_stats_def rows10_def)

theorem stored_size_witness:
  "map length rows10 = [1, 2, 2, 3, 3, 3, 3, 3, 3, 10]
   \<and> (\<exists>infos i1 i2 i3. branches_info (snd (make_infos env2 md3)) = Some infos
        \<and> map_of infos ''pfcand_etarel'' = Some i1 \<and> size i1 = Some 7
        \<and> map_of infos ''pfcand_ptrel'' = Some i2 \<and> size i2 = Some 100
        \<and> map_of infos ''fj_pt'' = Some i3 \<and> size i3 = None)"
proof -
  have vb: "var_branches md3 = Some [''fj_pt'', ''pfcand_ptrel'', ''pfcand_etarel'']"
    by (simp add: md3_def)
  have vs: "var_sizes md3 = Some [(''fj_pt'', None), (''pfcand_ptrel'', Some 100),
                                  (''pfcand_etarel'', None)]"
    by (simp add: md3_def)
  have one: "\<exists>infos info. branches_info (snd (make_infos env2 md3)) = Some infos
        \<and> map_of infos ''pfcand_etarel'' = Some info \<and> size info = Some 7"
    using stored_size[OF sample_make_infos vb, of "''pfcand_etarel''"]
    by (auto simp: vs sample_choose_files sample_read_column sample_expected_size)
  have two: "\<exists>infos info. branches_info (snd (make_infos env2 md3)) = Some infos
        \<and> map_of infos ''pfcand_ptrel'' = Some info \<and> size info = Some 100"
    using stored_size[OF sample_make_infos vb, of "''pfcand_ptrel''"]
    by (auto simp: vs sample_choose_files sample_read_column sample_expected_size)
  have three: "\<exists>infos info. branches_info (snd (make_infos env2 md3)) = Some infos
        \<and> map_of infos ''fj_pt'' = Some info \<and> size info = None"
    using stored_size[OF sample_make_infos vb, of "''fj_pt''"]
    by (auto simp: vs sample_choose_files sample_read_column sample_expected_size)
  have lens: "map length rows10 = [1, 2, 2, 3, 3, 3, 3, 3, 3, 10]"
    by (simp add: rows10_def)
  from one two three lens show ?thesis by auto
qed

subsection \<open>Metadata store\<close>

lemma keys_sorted_json_of: "keys_sorted (json_of v)"
proof (induction v)
  case (PList xs)
  then show ?case by (simp add: list_all_iff)
next
  case (PTuple xs)
  then show ?case by (simp add: list_all_iff)
next
  case (PDict kvs)
  have "sorted (map fst (sort_key fst (map (map_prod id json_of) kvs)))"
    by (rule sorted_sort_key)
  moreover have "list_all (pred_prod (\<lambda>k. True) keys_sorted) (sort_key fst (map (map_prod id json_of) kvs))"
    using PDict by (fastforce simp: list_all_iff)
  ultimately show ?case by simp
qed simp_all

lemma distinct_keys_sort_key:
  "distinct (map fst (sort_key fst kvs)) = distinct (map fst kvs)"
  by (simp add: distinct_map)

lemma map_of_sort_key:
  assumes "distinct (map fst kvs)"
  shows "map_of (sort_key fst kvs) = map_of kvs"
proof -
  have "distinct (map fst (sort_key fst kvs))"
    using assms by (simp add: distinct_keys_sort_key)
  then show ?thesis
    using assms by (simp add: map_of_inject_set)
qed

lemma map_of_map_prod:
  "map_of (map (map_prod id f) kvs) k = map_option f (map_of kvs k)"
  by (induction kvs) auto

lemma keys_map_prod: "map fst (map (map_prod id f) kvs) = map fst kvs"
  by (induction kvs) auto

text \<open>What the loader leaves in the object, for a document whose keys are distinct.\<close>

lemma map_of_fold_set_loaded:
  assumes "distinct (map fst kvs)"
  shows "map_of (fold set_loaded kvs target) k =
           (if startswith k ''_'' then map_of target k
            else (case map_of kvs k of None \<Rightarrow> map_of target k | Some j \<Rightarrow> Some (py_of j)))"
  using assms
proof (induction kvs arbitrary: target)
  case Nil
  then show ?case by simp
next
  case (Cons kv kvs)
  obtain k0 j0 where kv: "kv = (k0, j0)" by (cases kv)
  have notin: "map_of kvs k0 = None"
    using Cons.prems kv by (simp add: map_of_eq_None_iff)
  have d: "distinct (map fst kvs)" using Cons.prems by simp
  show ?case
    using Cons.IH[OF d, of "set_loaded kv target"] notin
    by (auto simp: kv set_loaded_def map_of_dict_set split: option.splits)
qed

lemma loadMetadata_after_write:
  assumes w: "write_dict e filepath d fs = Inr fs'"
    and dist: "distinct (map fst d)"
  shows "fs' filepath = Some (json_of (PDict d))"
    and "\<exists>obj'. loadMetadata filepath fs' target = Inr obj'
           \<and> (\<forall>k. map_of obj' k =
                 (if startswith k ''_'' then map_of target k
                  else (case map_of d k of None \<Rightarrow> map_of target k
                        | Some v \<Rightarrow> Some (py_of (json_of v)))))"
proof -
  let ?kvs = "sort_key fst (map (map_prod id json_of) d)"
  from w have fs': "fs' = fs(filepath \<mapsto> json_of (PDict d))"
    by (auto simp: write_dict_def split: if_splits)
  then show "fs' filepath = Some (json_of (PDict d))" by simp
  have dk: "distinct (map fst (map (map_prod id json_of) d))"
    using dist by (simp add: keys_map_prod)
  then have dk': "distinct (map fst ?kvs)" by (simp add: distinct_keys_sort_key)
  have look: "\<And>k. map_of ?kvs k = map_option json_of (map_of d k)"
    using map_of_sort_key[OF dk] by (simp add: map_of_map_prod)
  have "loadMetadata filepath fs' target = Inr (fold set_loaded ?kvs target)"
    by (simp add: fs' loadMetadata_def)
  moreover have "\<forall>k. map_of (fold set_loaded ?kvs target) k =
                 (if startswith k ''_'' then map_of target k
                  else (case map_of d k of None \<Rightarrow> map_of target k
                        | Some v \<Rightarrow> Some (py_of (json_of v))))"
    by (auto simp: map_of_fold_set_loaded[OF dk'] look split: option.splits)
  ultimately show "\<exists>obj'. loadMetadata filepath fs' target = Inr obj'
           \<and> (\<forall>k. map_of obj' k =
                 (if startswith k ''_'' then map_of target k
                  else (case map_of d k of None \<Rightarrow> map_of target k
                        | Some v \<Rightarrow> Some (py_of (json_of v)))))"
    by blast
qed

lemma py_eq_roundtrip: "dict_ok v \<Longrightarrow> py_eq (py_of (json_of v)) (as_lists v)"
proof (induction v)
  case (PList xs)
  then show ?case
    by (simp add: list_all2_map1 list_all2_map2 list_all2_same list_all_iff)
next
  case (PTuple xs)
  then show ?case
    by (simp add: list_all2_map1 list_all2_map2 list_all2_same list_all_iff)
next
  case (PDict kvs)
  let ?L = "map (map_prod id py_of) (sort_key fst (map (map_prod id json_of) kvs))"
  let ?R = "map (map_prod id as_lists) kvs"
  from PDict.prems have dist: "distinct (map fst kvs)"
    and ok: "\<And>k v. (k, v) \<in> set kvs \<Longrightarrow> dict_ok v"
    by (auto simp: list_all_iff)
  have keys: "set (map fst ?L) = set (map fst ?R)"
    by (simp add: keys_map_prod image_image)
  have each: "list_all (\<lambda>(k, v). case map_of ?R k of None \<Rightarrow> False | Some v' \<Rightarrow> py_eq v v') ?L"
    unfolding list_all_iff
  proof
    fix p assume "p \<in> set ?L"
    then obtain k v where kv: "(k, v) \<in> set kvs" and p: "p = (k, py_of (json_of v))"
      by auto
    have "map_of kvs k = Some v" using dist kv by simp
    then have look: "map_of ?R k = Some (as_lists v)" by (simp add: map_of_map_prod)
    have "py_eq (py_of (json_of v)) (as_lists v)"
      using PDict.IH[of "(k, v)" v] kv ok by simp
    then show "case p of (k, v) \<Rightarrow> (case map_of ?R k of None \<Rightarrow> False | Some v' \<Rightarrow> py_eq v v')"
      using look p by simp
  qed
  show ?case using keys each by simp
qed simp_all

lemma to_dict_distinct: "distinct (map fst (to_dict md))"
  by (simp add: to_dict_def attr_def split: option.splits)

end
